theory Spec2Isabelle
  imports Complex_Main "HOL-Library.AList"
begin

section \<open>Python values, exceptions and constants\<close>

text \<open>
  The StarLine integration is Python. The values that travel through its dictionaries
  (stored credentials, service data, option values, device fields) are typed \<open>Any\<close>
  in the source; the model keeps the kinds the code can tell apart: \<open>None\<close>,
  booleans, integers and strings. Python's \<open>bool\<close> is a subclass of \<open>int\<close>,
  so a boolean takes part in arithmetic as 0 or 1 (\<open>as_int\<close>).
\<close>

datatype pyval = PNone | PBool bool | PInt int | PStr string

fun as_int :: "pyval \<Rightarrow> int option" where
  "as_int (PInt n) = Some n"
| "as_int (PBool b) = Some (if b then 1 else 0)"
| "as_int PNone = None"
| "as_int (PStr s) = None"

text \<open>
  Exceptions are values. \<open>RangeError\<close> is what \<open>datetime.utcfromtimestamp\<close> raises
  for a timestamp outside the years 1 to 9999 (\<open>ValueError\<close>, \<open>OverflowError\<close> or
  \<open>OSError\<close>, as the platform has it). \<open>Failure\<close> stands for any other instance of
  \<open>Exception\<close> raised by a collaborator (the remote client, the host's store).
\<close>

datatype exn =
    KeyError string
  | TypeError
  | AttributeError
  | OverflowError
  | RangeError
  | ConfigEntryNotReady
  | Invalid
  | ServiceNotFound
  | Failure string

text \<open>
  Modelled from the spec: \<open>const.py\<close> is not among the source files. The two interval
  names are the spec's "state" and "obd-state", the defaults its 180 s and 60 min, the
  stored fields its user_id, session_token, session_expiry and identity_token. The results
  below use of these values only that the names are pairwise distinct, and the default of
  180 s where an example is evaluated.
\<close>

definition CONF_SCAN_INTERVAL :: string where
  "CONF_SCAN_INTERVAL = ''state''"

definition CONF_SCAN_OBD_INTERVAL :: string where
  "CONF_SCAN_OBD_INTERVAL = ''obd-state''"

definition DEFAULT_SCAN_INTERVAL :: int where
  "DEFAULT_SCAN_INTERVAL = 180"

definition DEFAULT_SCAN_OBD_INTERVAL :: int where
  "DEFAULT_SCAN_OBD_INTERVAL = 3600"

definition DATA_USER_ID :: string where
  "DATA_USER_ID = ''user_id''"

definition DATA_SLNET_TOKEN :: string where
  "DATA_SLNET_TOKEN = ''session_token''"

definition DATA_EXPIRES :: string where
  "DATA_EXPIRES = ''session_expiry''"

definition DATA_SLID_TOKEN :: string where
  "DATA_SLID_TOKEN = ''identity_token''"

definition DOMAIN :: string where
  "DOMAIN = ''starline''"

section \<open>Data model\<close>

text \<open>
  What a property of a device yields when it is read: a plain value (\<open>None\<close> among
  them) or a dictionary.
\<close>

datatype pyobj = Val pyval | Dict "string \<rightharpoonup> pyval"

text \<open>
  A device snapshot is owned by the remote client (\<open>StarlineDevice\<close>, of the \<open>starline\<close>
  package); the code only reads it. The identifier, name, firmware version and type name
  are stored values. The other properties are computed by the library when they are read:
  the snapshot says for each of them what the read yields, an exception or an object, which
  need not be the dictionary the code expects.
\<close>

record device =
  device_id :: pyval
  name :: pyval
  fw_version :: pyval
  typename :: pyval
  online :: "exn + pyobj"
  position :: "exn + pyobj"
  balance :: "exn + pyobj"
  gsm_level :: "exn + pyobj"
  imei :: "exn + pyobj"
  phone :: "exn + pyobj"
  errors :: "exn + pyobj"
  car_state :: "exn + pyobj"

text \<open>The in-memory remote client (\<open>StarlineApi\<close>): what the code reads and sets of it.\<close>

record api_state =
  api_user_id :: pyval
  api_slnet_token :: pyval
  available :: bool
  devices :: "(string \<times> device) list"

text \<open>
  \<open>StarlineAccount\<close>: \<open>_update_intervals\<close>, \<open>_unsubscribe_auto_updater\<close> (a dictionary
  whose iteration order \<open>unload\<close> follows, hence an association list; a cancellation
  handle is the number the scheduler gave the subscription) and \<open>_api\<close>.
\<close>

record account =
  update_intervals :: "string \<rightharpoonup> int"
  unsubscribe_auto_updater :: "(string \<times> nat option) list"
  api :: api_state

text \<open>What a recurring subscription invokes: the bound methods \<open>self.update\<close> and
  \<open>self.update_obd\<close>.\<close>

datatype action = Update | Update_obd

text \<open>What the integration writes to \<open>LOGGER\<close>.\<close>

datatype log_entry =
    Log_error_updating_token exn
  | Log_setting_interval pyval
  | Log_unloading
  | Log_unload string

text \<open>A trace of the calls the claims speak about: it records, it decides nothing.\<close>

datatype call =
    Call_update_slnet_token
  | Call_get_user_id pyval
  | Call_api_update
  | Call_api_update_obd

text \<open>The callable operations the integration registers, and the schema of each.\<close>

datatype handler = Account_update | Account_update_obd | Async_set_scan_interval

text \<open>\<open>vol.Schema({vol.Required(key): vol.All(vol.Coerce(int), vol.Range(min=m))})\<close>.\<close>

datatype schema = Required_int_min string int

datatype task = Forward_entry_setup string | Options_updated

text \<open>The registry-record shape \<open>device_info\<close> builds.\<close>

record device_info_rec =
  identifiers :: "string \<times> pyval"
  manufacturer :: string
  info_name :: pyval
  sw_version :: pyval
  model :: pyval

text \<open>
  The host (\<open>hass\<close>) with the one config entry the account belongs to: the entry's
  id, stored data and options and its update listeners; \<open>hass.data[DOMAIN]\<close> (absent
  until the first setup); the device registry (each record with the entry id it was
  created for); the tasks handed to the event loop; the registered services; the
  scheduler's active recurring subscriptions to the account's methods (handle, action,
  seconds) with the next free handle; the log; the trace.
\<close>

record hass =
  entry_id :: string
  entry_data :: "string \<rightharpoonup> pyval"
  entry_options :: "string \<rightharpoonup> pyval"
  update_listeners :: "task list"
  domain_data :: "(string \<rightharpoonup> account) option"
  device_registry :: "(string \<times> device_info_rec) list"
  pending_tasks :: "task list"
  services :: "(string \<times> string) \<rightharpoonup> (handler \<times> schema option)"
  timers :: "(nat \<times> action \<times> int) list"
  next_handle :: nat
  logger :: "log_entry list"
  calls :: "call list"

text \<open>
  What the collaborators answer, as parameters of the model: the remote exchange
  \<open>get_user_id\<close> (an exception or the triple session token, expiry, user id), the
  remote client's \<open>update\<close> and \<open>update_obd\<close> (which change the client and may raise),
  whether the host's \<open>async_update_entry\<close> raises for the data or options it is given,
  and Python's \<open>int\<close> on a string (\<open>None\<close> where it raises \<open>ValueError\<close>).
\<close>

record env =
  remote_get_user_id :: "api_state \<Rightarrow> pyval \<Rightarrow> exn + (pyval \<times> pyval \<times> pyval)"
  remote_update :: "api_state \<Rightarrow> exn option \<times> api_state"
  remote_update_obd :: "api_state \<Rightarrow> exn option \<times> api_state"
  store_data_error :: "(string \<rightharpoonup> pyval) \<Rightarrow> exn option"
  store_options_error :: "(string \<rightharpoonup> pyval) \<Rightarrow> exn option"
  int_of_str :: "string \<Rightarrow> int option"

section \<open>The account: construction and token renewal\<close>

text \<open>
  Modelled from the spec: \<open>StarlineApi\<close> comes from the \<open>starline\<close> package. The spec's
  "builds the remote client from stored user id + session token. No network call": the
  new client holds the two values, knows no device and is not yet available.
\<close>

definition StarlineApi :: "pyval \<Rightarrow> pyval \<Rightarrow> api_state" where
  "StarlineApi uid slnet_token =
     \<lparr>api_user_id = uid, api_slnet_token = slnet_token, available = False, devices = []\<rparr>"

text \<open>\<open>StarlineAccount.__init__\<close>: a missing stored field raises \<open>KeyError\<close>.\<close>

definition StarlineAccount :: "hass \<Rightarrow> exn + account" where
  "StarlineAccount h =
     (case entry_data h DATA_USER_ID of
        None \<Rightarrow> Inl (KeyError DATA_USER_ID)
      | Some uid \<Rightarrow>
          (case entry_data h DATA_SLNET_TOKEN of
             None \<Rightarrow> Inl (KeyError DATA_SLNET_TOKEN)
           | Some slnet_token \<Rightarrow>
               Inr \<lparr>update_intervals =
                      [CONF_SCAN_INTERVAL \<mapsto> DEFAULT_SCAN_INTERVAL,
                       CONF_SCAN_OBD_INTERVAL \<mapsto> DEFAULT_SCAN_OBD_INTERVAL],
                    unsubscribe_auto_updater =
                      [(CONF_SCAN_INTERVAL, None), (CONF_SCAN_OBD_INTERVAL, None)],
                    api = StarlineApi uid slnet_token\<rparr>))"

text \<open>
  Modelled from the spec: the host's \<open>config_entries.async_update_entry\<close> with
  \<open>data=\<close> is the write to the durable per-instance store. It either raises, and the
  stored data are as before, or replaces the stored data.
\<close>

definition async_update_entry_data ::
  "env \<Rightarrow> (string \<rightharpoonup> pyval) \<Rightarrow> hass \<Rightarrow> exn option \<times> hass" where
  "async_update_entry_data ev d h =
     (case store_data_error ev d of
        Some err \<Rightarrow> (Some err, h)
      | None \<Rightarrow> (None, h\<lparr>entry_data := d\<rparr>))"

text \<open>
  \<open>_update_slnet_token\<close>. The identity token is read before the \<open>try\<close>, so its
  \<open>KeyError\<close> propagates; everything from the exchange to the write is inside the
  \<open>try\<close>, whose handler logs and returns. \<open>set_slnet_token\<close> and \<open>set_user_id\<close> are
  the client's setters. The result is the exception that leaves the method (\<open>None\<close>: it
  returns), the account and the host.
\<close>

definition update_slnet_token :: "env \<Rightarrow> account \<Rightarrow> hass \<Rightarrow> exn option \<times> account \<times> hass" where
  "update_slnet_token ev a h =
     (let h0 = h\<lparr>calls := calls h @ [Call_update_slnet_token]\<rparr> in
      case entry_data h0 DATA_SLID_TOKEN of
        None \<Rightarrow> (Some (KeyError DATA_SLID_TOKEN), a, h0)
      | Some slid_token \<Rightarrow>
          (let h1 = h0\<lparr>calls := calls h0 @ [Call_get_user_id slid_token]\<rparr> in
           case remote_get_user_id ev (api a) slid_token of
             Inl err \<Rightarrow> (None, a, h1\<lparr>logger := logger h1 @ [Log_error_updating_token err]\<rparr>)
           | Inr (slnet_token, slnet_token_expires, uid) \<Rightarrow>
               (let a1 = a\<lparr>api := (api a)\<lparr>api_slnet_token := slnet_token\<rparr>\<rparr>;
                    a2 = a1\<lparr>api := (api a1)\<lparr>api_user_id := uid\<rparr>\<rparr>
                in case async_update_entry_data ev
                         ((entry_data h1)(DATA_SLNET_TOKEN \<mapsto> slnet_token,
                                          DATA_EXPIRES \<mapsto> slnet_token_expires,
                                          DATA_USER_ID \<mapsto> uid)) h1 of
                     (Some err, h2) \<Rightarrow>
                       (None, a2, h2\<lparr>logger := logger h2 @ [Log_error_updating_token err]\<rparr>)
                   | (None, h2) \<Rightarrow> (None, a2, h2))))"

text \<open>
  \<open>_check_slnet_token\<close>, at the clock reading \<open>now\<close> (\<open>datetime.now().timestamp()\<close>, a
  float, here a real number). A missing expiry raises \<open>KeyError\<close>; adding \<open>None\<close> or
  comparing with a value that is no number raises \<open>TypeError\<close>. The sum and the
  comparison are exact here, where Python rounds the sum to a float, and the stored expiry
  is one of the model's values, an integer: the results below evaluate the check only at
  whole seconds, where the two agree.
\<close>

definition check_slnet_token ::
  "env \<Rightarrow> real \<Rightarrow> account \<Rightarrow> hass \<Rightarrow> exn option \<times> account \<times> hass" where
  "check_slnet_token ev now a h =
     (case entry_data h DATA_EXPIRES of
        None \<Rightarrow> (Some (KeyError DATA_EXPIRES), a, h)
      | Some slnet_token_expires \<Rightarrow>
          (case update_intervals a CONF_SCAN_INTERVAL of
             None \<Rightarrow> (Some TypeError, a, h)
           | Some interval \<Rightarrow>
               (case as_int slnet_token_expires of
                  None \<Rightarrow> (Some TypeError, a, h)
                | Some expires \<Rightarrow>
                    if now + real_of_int interval > real_of_int expires
                    then update_slnet_token ev a h
                    else (None, a, h))))"

text \<open>\<open>_update_data\<close> and \<open>_update_obd_data\<close>: the check, then the remote client's refresh.\<close>

definition update_data :: "env \<Rightarrow> real \<Rightarrow> account \<Rightarrow> hass \<Rightarrow> exn option \<times> account \<times> hass" where
  "update_data ev now a h =
     (case check_slnet_token ev now a h of
        (Some err, a1, h1) \<Rightarrow> (Some err, a1, h1)
      | (None, a1, h1) \<Rightarrow>
          (case remote_update ev (api a1) of
             (r, api1) \<Rightarrow> (r, a1\<lparr>api := api1\<rparr>, h1\<lparr>calls := calls h1 @ [Call_api_update]\<rparr>)))"

definition update_obd_data ::
  "env \<Rightarrow> real \<Rightarrow> account \<Rightarrow> hass \<Rightarrow> exn option \<times> account \<times> hass" where
  "update_obd_data ev now a h =
     (case check_slnet_token ev now a h of
        (Some err, a1, h1) \<Rightarrow> (Some err, a1, h1)
      | (None, a1, h1) \<Rightarrow>
          (case remote_update_obd ev (api a1) of
             (r, api1) \<Rightarrow> (r, a1\<lparr>api := api1\<rparr>, h1\<lparr>calls := calls h1 @ [Call_api_update_obd]\<rparr>)))"

text \<open>
  \<open>update\<close> and \<open>update_obd\<close> hand the blocking method to the executor and await it: the
  caller sees its effects and its exception.
\<close>

definition update :: "env \<Rightarrow> real \<Rightarrow> account \<Rightarrow> hass \<Rightarrow> exn option \<times> account \<times> hass" where
  "update ev now a h = update_data ev now a h"

definition update_obd :: "env \<Rightarrow> real \<Rightarrow> account \<Rightarrow> hass \<Rightarrow> exn option \<times> account \<times> hass" where
  "update_obd ev now a h = update_obd_data ev now a h"

text \<open>How often \<open>_update_slnet_token\<close> has been entered.\<close>

definition renewals :: "hass \<Rightarrow> nat" where
  "renewals h = count_list (calls h) Call_update_slnet_token"

section \<open>The account: polling subscriptions\<close>

text \<open>
  Modelled from the spec: the host's recurring-task scheduler
  (\<open>async_track_time_interval\<close>) is not among the source files. The spec's "register
  callback + interval, returns a cancel handle": the new subscription gets the next free
  handle. Invoking a handle "guarantees no further invocations after return": the
  subscription with that handle is no longer active, and invoking a handle again changes
  nothing.
\<close>

definition async_track_time_interval :: "action \<Rightarrow> int \<Rightarrow> hass \<Rightarrow> nat \<times> hass" where
  "async_track_time_interval act delta h =
     (next_handle h,
      h\<lparr>timers := timers h @ [(next_handle h, act, delta)], next_handle := Suc (next_handle h)\<rparr>)"

definition cancel :: "nat \<Rightarrow> hass \<Rightarrow> hass" where
  "cancel hnd h = h\<lparr>timers := filter (\<lambda>t. fst t \<noteq> hnd) (timers h)\<rparr>"

text \<open>
  Python's \<open>timedelta(seconds=v)\<close>: \<open>TypeError\<close> for a value that is no number,
  \<open>OverflowError\<close> when the days (\<open>v // 86400\<close>) exceed 999999999 in magnitude.
\<close>

definition timedelta :: "pyval \<Rightarrow> exn + int" where
  "timedelta v =
     (case as_int v of
        None \<Rightarrow> Inl TypeError
      | Some n \<Rightarrow> if 999999999 < \<bar>n div 86400\<bar> then Inl OverflowError else Inr n)"

text \<open>Lines 100 and 101 of \<open>set_update_interval\<close>: the stored handle, if any, is invoked.\<close>

definition cancel_existing :: "nat option \<Rightarrow> hass \<Rightarrow> hass" where
  "cancel_existing unsub h = (case unsub of None \<Rightarrow> h | Some hnd \<Rightarrow> cancel hnd h)"

definition action_for :: "string \<Rightarrow> action" where
  "action_for key = (if key = CONF_SCAN_INTERVAL then Update else Update_obd)"

text \<open>
  \<open>set_update_interval\<close>, with the states of the host it passes through, in order: after
  the debug line (line 99), after the stored handle, if any, was invoked (lines 100 and
  101), after the new subscription was installed (line 104). A key the dictionary does not
  hold raises \<open>KeyError\<close>, and \<open>timedelta\<close> may raise, after the handle was invoked. The
  method never assigns to \<open>_update_intervals\<close>.
\<close>

definition set_update_interval_steps ::
  "string \<Rightarrow> pyval \<Rightarrow> account \<Rightarrow> hass \<Rightarrow> exn option \<times> account \<times> hass list" where
  "set_update_interval_steps key interval a h =
     (let h0 = h\<lparr>logger := logger h @ [Log_setting_interval interval]\<rparr> in
      case map_of (unsubscribe_auto_updater a) key of
        None \<Rightarrow> (Some (KeyError key), a, [h0])
      | Some unsub \<Rightarrow>
          (let h1 = cancel_existing unsub h0 in
           case timedelta interval of
             Inl err \<Rightarrow> (Some err, a, [h0, h1])
           | Inr delta \<Rightarrow>
               (case async_track_time_interval (action_for key) delta h1 of
                  (hnd, h2) \<Rightarrow>
                    (None,
                     a\<lparr>unsubscribe_auto_updater :=
                         AList.update key (Some hnd) (unsubscribe_auto_updater a)\<rparr>,
                     [h0, h1, h2]))))"

text \<open>The method leaves the host in the last of these states.\<close>

definition set_update_interval ::
  "string \<Rightarrow> pyval \<Rightarrow> account \<Rightarrow> hass \<Rightarrow> exn option \<times> account \<times> hass" where
  "set_update_interval key interval a h =
     (case set_update_interval_steps key interval a h of (r, a1, hs) \<Rightarrow> (r, a1, last hs))"

text \<open>
  \<open>unload\<close>: the loop over the dictionary's keys, in their order. The keys come from the
  dictionary itself, so the lookup in the loop finds each of them.
\<close>

fun unload_keys :: "string list \<Rightarrow> account \<Rightarrow> hass \<Rightarrow> account \<times> hass" where
  "unload_keys [] a h = (a, h)"
| "unload_keys (key # keys) a h =
     (case map_of (unsubscribe_auto_updater a) key of
        Some (Some hnd) \<Rightarrow>
          unload_keys keys
            (a\<lparr>unsubscribe_auto_updater := AList.update key None (unsubscribe_auto_updater a)\<rparr>)
            (cancel hnd (h\<lparr>logger := logger h @ [Log_unload key]\<rparr>))
      | Some None \<Rightarrow> unload_keys keys a h
      | None \<Rightarrow> unload_keys keys a h)"

definition unload :: "account \<Rightarrow> hass \<Rightarrow> account \<times> hass" where
  "unload a h =
     unload_keys (map fst (unsubscribe_auto_updater a)) a (h\<lparr>logger := logger h @ [Log_unloading]\<rparr>)"

text \<open>\<open>unload\<close> once, then \<open>n\<close> more times.\<close>

fun unload_again :: "nat \<Rightarrow> account \<times> hass \<Rightarrow> account \<times> hass" where
  "unload_again 0 s = s"
| "unload_again (Suc n) s = unload_again n (unload (fst s) (snd s))"

text \<open>A sequence of \<open>set_update_interval\<close> calls; a call that raises leaves its effects.\<close>

fun set_update_intervals :: "(string \<times> pyval) list \<Rightarrow> account \<times> hass \<Rightarrow> account \<times> hass" where
  "set_update_intervals [] s = s"
| "set_update_intervals ((key, interval) # cs) s =
     set_update_intervals cs (snd (set_update_interval key interval (fst s) (snd s)))"

text \<open>The states of the host such a sequence passes through, in order.\<close>

fun set_update_intervals_states :: "(string \<times> pyval) list \<Rightarrow> account \<times> hass \<Rightarrow> hass list" where
  "set_update_intervals_states [] s = []"
| "set_update_intervals_states ((key, interval) # cs) s =
     (case set_update_interval_steps key interval (fst s) (snd s) of
        (r, a1, hs) \<Rightarrow> hs @ set_update_intervals_states cs (a1, last hs))"

text \<open>The active subscriptions for an interval name: those that invoke its method.\<close>

definition subscriptions :: "string \<Rightarrow> hass \<Rightarrow> (nat \<times> action \<times> int) list" where
  "subscriptions key h = filter (\<lambda>t. fst (snd t) = action_for key) (timers h)"

text \<open>
  The state the account keeps with the scheduler: the dictionary of handles has the two
  interval names as its keys, no two active subscriptions share a handle, and each active
  subscription was handed out by the scheduler and is the one whose handle the account
  stores under the name of its method.
\<close>

definition handle_key :: "action \<Rightarrow> string" where
  "handle_key act = (case act of Update \<Rightarrow> CONF_SCAN_INTERVAL | Update_obd \<Rightarrow> CONF_SCAN_OBD_INTERVAL)"

definition subscribed :: "account \<Rightarrow> hass \<Rightarrow> bool" where
  "subscribed a h \<longleftrightarrow>
     map fst (unsubscribe_auto_updater a) = [CONF_SCAN_INTERVAL, CONF_SCAN_OBD_INTERVAL] \<and>
     distinct (map fst (timers h)) \<and>
     list_all (\<lambda>t. fst t < next_handle h \<and>
                 map_of (unsubscribe_auto_updater a) (handle_key (fst (snd t))) = Some (Some (fst t)))
       (timers h)"

section \<open>The account: presentation helpers\<close>

text \<open>
  Sequencing: the first exception ends the evaluation.
\<close>

definition and_then :: "exn + 'a \<Rightarrow> ('a \<Rightarrow> exn + 'b) \<Rightarrow> exn + 'b" where
  "and_then r f = (case r of Inl err \<Rightarrow> Inl err | Inr x \<Rightarrow> f x)"

text \<open>
  \<open>d.get(k)\<close> on a dictionary: the value, or \<open>None\<close> for a key the dictionary does not
  hold. On an object that is no dictionary (\<open>None\<close>, a number, a string) the attribute
  \<open>get\<close> does not exist: \<open>AttributeError\<close>.
\<close>

definition dict_get :: "(string \<rightharpoonup> pyval) \<Rightarrow> string \<Rightarrow> pyval" where
  "dict_get d k = (case d k of None \<Rightarrow> PNone | Some v \<Rightarrow> v)"

definition py_get :: "pyobj \<Rightarrow> string \<Rightarrow> exn + pyobj" where
  "py_get obj k = (case obj of Dict d \<Rightarrow> Inr (Val (dict_get d k)) | Val v \<Rightarrow> Inl AttributeError)"


text \<open>
  \<open>datetime.utcfromtimestamp(ts).isoformat()\<close> for the timestamps the model has, the
  integers: the proleptic Gregorian date and the time of day of second \<open>ts\<close> after the
  epoch, as \<open>YYYY-MM-DDTHH:MM:SS\<close>. A value that is no number raises \<open>TypeError\<close>, a
  second before year 1 or after year 9999 \<open>RangeError\<close>.
\<close>

definition digit :: "int \<Rightarrow> char" where
  "digit n = ''0123456789'' ! nat n"

definition two_digits :: "int \<Rightarrow> string" where
  "two_digits n = [digit (n div 10 mod 10), digit (n mod 10)]"

definition four_digits :: "int \<Rightarrow> string" where
  "four_digits n = two_digits (n div 100) @ two_digits (n mod 100)"

definition civil_from_days :: "int \<Rightarrow> int \<times> int \<times> int" where
  "civil_from_days days =
     (let z = days + 719468;
          era = z div 146097;
          doe = z - era * 146097;
          yoe = (doe - doe div 1460 + doe div 36524 - doe div 146096) div 365;
          doy = doe - (365 * yoe + yoe div 4 - yoe div 100);
          mp = (5 * doy + 2) div 153;
          d = doy - (153 * mp + 2) div 5 + 1;
          m = (if mp < 10 then mp + 3 else mp - 9);
          y = yoe + era * 400 + (if m \<le> 2 then 1 else 0)
      in (y, m, d))"

definition isoformat :: "int \<Rightarrow> string" where
  "isoformat t =
     (case civil_from_days (t div 86400) of
        (y, m, d) \<Rightarrow>
          four_digits y @ ''-'' @ two_digits m @ ''-'' @ two_digits d @ ''T'' @
          two_digits (t mod 86400 div 3600) @ '':'' @ two_digits (t mod 3600 div 60) @ '':'' @
          two_digits (t mod 60))"

definition utcfromtimestamp_isoformat :: "pyval \<Rightarrow> exn + string" where
  "utcfromtimestamp_isoformat ts =
     (case as_int ts of
        None \<Rightarrow> Inl TypeError
      | Some t \<Rightarrow>
          if t < - 62135596800 \<or> 253402300799 < t then Inl RangeError else Inr (isoformat t))"

definition device_info :: "device \<Rightarrow> device_info_rec" where
  "device_info d =
     \<lparr>identifiers = (DOMAIN, device_id d), manufacturer = ''StarLine'', info_name = name d,
      sw_version = fw_version d, model = typename d\<rparr>"





definition engine_attrs :: "device \<Rightarrow> exn + (string \<times> pyobj) list" where
  "engine_attrs d =
     and_then (car_state d) (\<lambda>c1. and_then (py_get c1 ''r_start'') (\<lambda>autostart.
     and_then (car_state d) (\<lambda>c2. and_then (py_get c2 ''run'') (\<lambda>ignition.
       Inr [(''autostart'', autostart), (''ignition'', ignition)]))))"

section \<open>The entry lifecycle\<close>

text \<open>
  Modelled from the spec: the names of the host-callable operations are in \<open>const.py\<close>.
  The spec names \<open>update_state\<close>, \<open>update_obd_state\<close> and \<open>set_scan_interval\<close>; the code
  registers a fourth operation, named here after its constant.
\<close>

definition SERVICE_UPDATE_STATE :: string where
  "SERVICE_UPDATE_STATE = ''update_state''"

definition SERVICE_UPDATE_OBD_STATE :: string where
  "SERVICE_UPDATE_OBD_STATE = ''update_obd_state''"

definition SERVICE_SET_SCAN_INTERVAL :: string where
  "SERVICE_SET_SCAN_INTERVAL = ''set_scan_interval''"

definition SERVICE_SET_SCAN_OBD_INTERVAL :: string where
  "SERVICE_SET_SCAN_OBD_INTERVAL = ''set_scan_obd_interval''"

text \<open>
  Modelled from the spec: the host's registries are not among the source files. The
  process-wide registry is \<open>hass.data[DOMAIN]\<close>, keyed by entry id; it holds the account
  object, so what a method does to the account is seen through the registry
  (\<open>store_account\<close> is also lines 36 to 38 of \<open>async_setup_entry\<close>). The device registry
  gets or creates a record by its identifiers. A task is handed to the event loop. A
  registration replaces an earlier one of the same name.
\<close>

definition registered_account :: "hass \<Rightarrow> account option" where
  "registered_account h = (case domain_data h of None \<Rightarrow> None | Some reg \<Rightarrow> reg (entry_id h))"

definition store_account :: "account \<Rightarrow> hass \<Rightarrow> hass" where
  "store_account a h =
     h\<lparr>domain_data :=
         Some ((case domain_data h of None \<Rightarrow> Map.empty | Some reg \<Rightarrow> reg)(entry_id h \<mapsto> a))\<rparr>"

definition async_get_or_create :: "string \<Rightarrow> device_info_rec \<Rightarrow> hass \<Rightarrow> hass" where
  "async_get_or_create eid info h =
     (if list_ex (\<lambda>r. identifiers (snd r) = identifiers info) (device_registry h) then h
      else h\<lparr>device_registry := device_registry h @ [(eid, info)]\<rparr>)"

definition async_create_task :: "task \<Rightarrow> hass \<Rightarrow> hass" where
  "async_create_task t h = h\<lparr>pending_tasks := pending_tasks h @ [t]\<rparr>"

definition async_register :: "string \<Rightarrow> string \<Rightarrow> handler \<Rightarrow> schema option \<Rightarrow> hass \<Rightarrow> hass" where
  "async_register domain service func sch h =
     h\<lparr>services := (services h)((domain, service) \<mapsto> (func, sch))\<rparr>"

definition add_update_listener :: "task \<Rightarrow> hass \<Rightarrow> hass" where
  "add_update_listener t h = h\<lparr>update_listeners := update_listeners h @ [t]\<rparr>"

text \<open>
  Modelled from the spec: \<open>async_update_entry\<close> with \<open>options=\<close> "persists both as the
  entry's options, which triggers ApplyOptions via the options-changed subscription": it
  raises and changes nothing, or replaces the options and hands each update listener to
  the event loop.
\<close>

definition async_update_entry_options ::
  "env \<Rightarrow> (string \<rightharpoonup> pyval) \<Rightarrow> hass \<Rightarrow> exn option \<times> hass" where
  "async_update_entry_options ev opts h =
     (case store_options_error ev opts of
        Some err \<Rightarrow> (Some err, h)
      | None \<Rightarrow>
          (None, h\<lparr>entry_options := opts, pending_tasks := pending_tasks h @ update_listeners h\<rparr>))"

text \<open>\<open>async_options_updated\<close>: the account is looked up in the registry.\<close>

definition async_options_updated :: "hass \<Rightarrow> exn option \<times> hass" where
  "async_options_updated h =
     (case domain_data h of
        None \<Rightarrow> (Some (KeyError DOMAIN), h)
      | Some reg \<Rightarrow>
          (case reg (entry_id h) of
             None \<Rightarrow> (Some (KeyError (entry_id h)), h)
           | Some a \<Rightarrow>
               (let scan_interval =
                      (case entry_options h CONF_SCAN_INTERVAL of
                         None \<Rightarrow> PInt DEFAULT_SCAN_INTERVAL | Some v \<Rightarrow> v);
                    scan_obd_interval =
                      (case entry_options h CONF_SCAN_OBD_INTERVAL of
                         None \<Rightarrow> PInt DEFAULT_SCAN_OBD_INTERVAL | Some v \<Rightarrow> v)
                in case set_update_interval CONF_SCAN_INTERVAL scan_interval a h of
                     (Some err, a1, h1) \<Rightarrow> (Some err, store_account a1 h1)
                   | (None, a1, h1) \<Rightarrow>
                       (case set_update_interval CONF_SCAN_OBD_INTERVAL scan_obd_interval a1 h1 of
                          (r, a2, h2) \<Rightarrow> (r, store_account a2 h2)))))"

text \<open>
  \<open>async_setup_entry\<close>, with the clock readings of the two initial refreshes and
  \<open>PLATFORMS\<close> (a constant of \<open>const.py\<close>) as a parameter. The result is the exception it
  raises or the value it returns, and the host.
\<close>

definition async_setup_entry ::
  "env \<Rightarrow> real \<Rightarrow> real \<Rightarrow> string list \<Rightarrow> hass \<Rightarrow> (exn + bool) \<times> hass" where
  "async_setup_entry ev now1 now2 platforms h =
     (case StarlineAccount h of
        Inl err \<Rightarrow> (Inl err, h)
      | Inr a \<Rightarrow>
          (case update ev now1 a h of
             (Some err, a1, h1) \<Rightarrow> (Inl err, h1)
           | (None, a1, h1) \<Rightarrow>
               (case update_obd ev now2 a1 h1 of
                  (Some err, a2, h2) \<Rightarrow> (Inl err, h2)
                | (None, a2, h2) \<Rightarrow>
                    if \<not> available (api a2) then (Inl ConfigEntryNotReady, h2)
                    else
                      (let h3 = store_account a2 h2;
                           h4 = fold (\<lambda>d. async_get_or_create (entry_id h3) (device_info (snd d)))
                                  (devices (api a2)) h3;
                           h5 = fold (\<lambda>p. async_create_task (Forward_entry_setup p)) platforms h4;
                           h6 = async_register DOMAIN SERVICE_UPDATE_STATE Account_update None h5;
                           h7 = async_register DOMAIN SERVICE_UPDATE_OBD_STATE Account_update_obd
                                  None h6;
                           h8 = async_register DOMAIN SERVICE_SET_SCAN_INTERVAL
                                  Async_set_scan_interval
                                  (Some (Required_int_min CONF_SCAN_INTERVAL 10)) h7;
                           h9 = async_register DOMAIN SERVICE_SET_SCAN_OBD_INTERVAL
                                  Async_set_scan_interval
                                  (Some (Required_int_min CONF_SCAN_OBD_INTERVAL 100)) h8;
                           h10 = add_update_listener Options_updated h9
                       in case async_options_updated h10 of
                            (Some err, h11) \<Rightarrow> (Inl err, h11)
                          | (None, h11) \<Rightarrow> (Inr True, h11)))))"

text \<open>
  The handler \<open>async_set_scan_interval\<close>, given \<open>call.data\<close>: it subscripts the data with
  both interval names.
\<close>

definition async_set_scan_interval ::
  "env \<Rightarrow> (string \<times> pyval) list \<Rightarrow> hass \<Rightarrow> exn option \<times> hass" where
  "async_set_scan_interval ev call_data h =
     (case map_of call_data CONF_SCAN_INTERVAL of
        None \<Rightarrow> (Some (KeyError CONF_SCAN_INTERVAL), h)
      | Some scan_interval \<Rightarrow>
          (case map_of call_data CONF_SCAN_OBD_INTERVAL of
             None \<Rightarrow> (Some (KeyError CONF_SCAN_OBD_INTERVAL), h)
           | Some scan_obd_interval \<Rightarrow>
               async_update_entry_options ev
                 ((entry_options h)(CONF_SCAN_INTERVAL \<mapsto> scan_interval,
                                    CONF_SCAN_OBD_INTERVAL \<mapsto> scan_obd_interval)) h))"

text \<open>
  Modelled from the spec: the host's "operation-registration mechanism with schema
  validation". The schemas are voluptuous schemas of one required key: a key the schema
  does not name is refused (a schema refuses extra keys unless told otherwise), as is a
  missing key, a value \<open>int\<close> cannot convert and a converted value below the minimum. The
  handler is given the validated data: the key with the converted value.
\<close>

definition coerce_int :: "env \<Rightarrow> pyval \<Rightarrow> int option" where
  "coerce_int ev v = (case v of PStr s \<Rightarrow> int_of_str ev s | _ \<Rightarrow> as_int v)"

fun validate :: "env \<Rightarrow> schema \<Rightarrow> (string \<times> pyval) list \<Rightarrow> exn + (string \<times> pyval) list" where
  "validate ev (Required_int_min key m) service_data =
     (if list_ex (\<lambda>kv. fst kv \<noteq> key) service_data then Inl Invalid
      else case map_of service_data key of
             None \<Rightarrow> Inl Invalid
           | Some v \<Rightarrow>
               (case coerce_int ev v of
                  None \<Rightarrow> Inl Invalid
                | Some n \<Rightarrow> if n < m then Inl Invalid else Inr [(key, PInt n)]))"

text \<open>
  A call of a registered operation: validation, then the handler. The two refresh
  operations are bound methods of the account, the object the registry holds.
\<close>

definition run_handler ::
  "env \<Rightarrow> real \<Rightarrow> handler \<Rightarrow> (string \<times> pyval) list \<Rightarrow> hass \<Rightarrow> exn option \<times> hass" where
  "run_handler ev now func call_data h =
     (case func of
        Async_set_scan_interval \<Rightarrow> async_set_scan_interval ev call_data h
      | Account_update \<Rightarrow>
          (case registered_account h of
             None \<Rightarrow> (Some (KeyError (entry_id h)), h)
           | Some a \<Rightarrow> (case update ev now a h of (r, a1, h1) \<Rightarrow> (r, store_account a1 h1)))
      | Account_update_obd \<Rightarrow>
          (case registered_account h of
             None \<Rightarrow> (Some (KeyError (entry_id h)), h)
           | Some a \<Rightarrow> (case update_obd ev now a h of (r, a1, h1) \<Rightarrow> (r, store_account a1 h1))))"

definition async_call ::
  "env \<Rightarrow> real \<Rightarrow> string \<Rightarrow> string \<Rightarrow> (string \<times> pyval) list \<Rightarrow> hass \<Rightarrow> exn option \<times> hass" where
  "async_call ev now domain service service_data h =
     (case services h (domain, service) of
        None \<Rightarrow> (Some ServiceNotFound, h)
      | Some (func, sch) \<Rightarrow>
          (case (case sch of None \<Rightarrow> Inr service_data | Some s \<Rightarrow> validate ev s service_data) of
             Inl err \<Rightarrow> (Some err, h)
           | Inr call_data \<Rightarrow> run_handler ev now func call_data h))"

text \<open>
  What the setup registers with the host and what the account subscribes: the parts of
  the host a refresh has no business with.
\<close>

definition registries ::
  "hass \<Rightarrow> (string \<rightharpoonup> account) option \<times> (string \<times> device_info_rec) list \<times>
     ((string \<times> string) \<rightharpoonup> (handler \<times> schema option)) \<times> (nat \<times> action \<times> int) list \<times> nat \<times>
     task list \<times> task list \<times> (string \<rightharpoonup> pyval) \<times> string" where
  "registries h =
     (domain_data h, device_registry h, services h, timers h, next_handle h, pending_tasks h,
      update_listeners h, entry_options h, entry_id h)"

section \<open>Example states\<close>

text \<open>
  A host with stored credentials whose session expires at second 1005, no options and
  nothing registered; collaborators that answer as told: the exchange with \<open>exchange\<close>,
  the store with \<open>stored\<close>, the refresh by reporting one device and the availability \<open>up\<close>.
\<close>

definition example_hass :: hass where
  "example_hass =
     \<lparr>entry_id = ''entry1'',
      entry_data = [DATA_USER_ID \<mapsto> PStr ''u1'', DATA_SLNET_TOKEN \<mapsto> PStr ''old'',
                    DATA_EXPIRES \<mapsto> PInt 1005, DATA_SLID_TOKEN \<mapsto> PStr ''slid'',
                    ''login'' \<mapsto> PStr ''me''],
      entry_options = Map.empty, update_listeners = [], domain_data = None,
      device_registry = [], pending_tasks = [], services = Map.empty, timers = [],
      next_handle = 0, logger = [], calls = []\<rparr>"

definition example_device :: device where
  "example_device =
     \<lparr>device_id = PInt 7, name = PStr ''car'', fw_version = PStr ''1.0'', typename = PStr ''A93'',
      online = Inr (Val (PBool True)), position = Inr (Dict Map.empty),
      balance = Inr (Dict [''state'' \<mapsto> PInt 1]), gsm_level = Inr (Val (PInt 20)),
      imei = Inr (Val (PStr ''35'')), phone = Inr (Val PNone), errors = Inr (Dict Map.empty),
      car_state = Inr (Dict Map.empty)\<rparr>"



definition example_env :: "exn + (pyval \<times> pyval \<times> pyval) \<Rightarrow> exn option \<Rightarrow> bool \<Rightarrow> env" where
  "example_env exchange stored up =
     \<lparr>remote_get_user_id = (\<lambda>c t. exchange),
      remote_update = (\<lambda>c. (None, c\<lparr>available := up, devices := [(''7'', example_device)]\<rparr>)),
      remote_update_obd = (\<lambda>c. (None, c)),
      store_data_error = (\<lambda>d. stored),
      store_options_error = (\<lambda>d. None),
      int_of_str = (\<lambda>s. None)\<rparr>"

definition example_account :: account where
  "example_account =
     \<lparr>update_intervals = [CONF_SCAN_INTERVAL \<mapsto> DEFAULT_SCAN_INTERVAL,
                           CONF_SCAN_OBD_INTERVAL \<mapsto> DEFAULT_SCAN_OBD_INTERVAL],
      unsubscribe_auto_updater = [(CONF_SCAN_INTERVAL, None), (CONF_SCAN_OBD_INTERVAL, None)],
      api = StarlineApi (PStr ''u1'') (PStr ''old'')\<rparr>"

text \<open>
  The host after a successful setup at second 0 (the session is fresh, the client comes up
  available) with one dependent platform.
\<close>

definition example_ready :: hass where
  "example_ready =
     snd (async_setup_entry (example_env (Inl (Failure ''unused'')) None True) 0 0 [''sensor'']
            example_hass)"

text \<open>The example account after three changes of its intervals.\<close>

definition example_polling :: "account \<times> hass" where
  "example_polling =
     set_update_intervals
       [(CONF_SCAN_INTERVAL, PInt 10), (CONF_SCAN_OBD_INTERVAL, PInt 100),
        (CONF_SCAN_INTERVAL, PInt 20)]
       (example_account, example_hass)"

text \<open>The example account after its state interval has been set to 600 s.\<close>

definition example_configured :: "account \<times> hass" where
  "example_configured =
     snd (set_update_interval CONF_SCAN_INTERVAL (PInt 600) example_account example_hass)"

section \<open>Names\<close>

lemma data_names_distinct:
  "DATA_USER_ID \<noteq> DATA_SLNET_TOKEN" "DATA_USER_ID \<noteq> DATA_EXPIRES"
  "DATA_USER_ID \<noteq> DATA_SLID_TOKEN" "DATA_SLNET_TOKEN \<noteq> DATA_USER_ID"
  "DATA_SLNET_TOKEN \<noteq> DATA_EXPIRES" "DATA_SLNET_TOKEN \<noteq> DATA_SLID_TOKEN"
  "DATA_EXPIRES \<noteq> DATA_USER_ID" "DATA_EXPIRES \<noteq> DATA_SLNET_TOKEN"
  "DATA_EXPIRES \<noteq> DATA_SLID_TOKEN" "DATA_SLID_TOKEN \<noteq> DATA_USER_ID"
  "DATA_SLID_TOKEN \<noteq> DATA_SLNET_TOKEN" "DATA_SLID_TOKEN \<noteq> DATA_EXPIRES"
  "DATA_USER_ID \<noteq> ''login''" "DATA_SLNET_TOKEN \<noteq> ''login''"
  "DATA_EXPIRES \<noteq> ''login''" "DATA_SLID_TOKEN \<noteq> ''login''"
  "''login'' \<noteq> DATA_USER_ID" "''login'' \<noteq> DATA_SLNET_TOKEN"
  "''login'' \<noteq> DATA_EXPIRES" "''login'' \<noteq> DATA_SLID_TOKEN"
  by (simp_all add: DATA_USER_ID_def DATA_SLNET_TOKEN_def DATA_EXPIRES_def DATA_SLID_TOKEN_def)

lemma interval_names_distinct:
  "CONF_SCAN_INTERVAL \<noteq> CONF_SCAN_OBD_INTERVAL" "CONF_SCAN_OBD_INTERVAL \<noteq> CONF_SCAN_INTERVAL"
  by (simp_all add: CONF_SCAN_INTERVAL_def CONF_SCAN_OBD_INTERVAL_def)

lemma service_names_distinct:
  "SERVICE_UPDATE_STATE \<noteq> SERVICE_UPDATE_OBD_STATE"
  "SERVICE_UPDATE_STATE \<noteq> SERVICE_SET_SCAN_INTERVAL"
  "SERVICE_UPDATE_STATE \<noteq> SERVICE_SET_SCAN_OBD_INTERVAL"
  "SERVICE_UPDATE_OBD_STATE \<noteq> SERVICE_UPDATE_STATE"
  "SERVICE_UPDATE_OBD_STATE \<noteq> SERVICE_SET_SCAN_INTERVAL"
  "SERVICE_UPDATE_OBD_STATE \<noteq> SERVICE_SET_SCAN_OBD_INTERVAL"
  "SERVICE_SET_SCAN_INTERVAL \<noteq> SERVICE_UPDATE_STATE"
  "SERVICE_SET_SCAN_INTERVAL \<noteq> SERVICE_UPDATE_OBD_STATE"
  "SERVICE_SET_SCAN_INTERVAL \<noteq> SERVICE_SET_SCAN_OBD_INTERVAL"
  "SERVICE_SET_SCAN_OBD_INTERVAL \<noteq> SERVICE_UPDATE_STATE"
  "SERVICE_SET_SCAN_OBD_INTERVAL \<noteq> SERVICE_UPDATE_OBD_STATE"
  "SERVICE_SET_SCAN_OBD_INTERVAL \<noteq> SERVICE_SET_SCAN_INTERVAL"
  by (simp_all add: SERVICE_UPDATE_STATE_def SERVICE_UPDATE_OBD_STATE_def
      SERVICE_SET_SCAN_INTERVAL_def SERVICE_SET_SCAN_OBD_INTERVAL_def)

section \<open>Token renewal\<close>

text \<open>
  C4. When the remote exchange raises, \<open>_update_slnet_token\<close> returns without an
  exception: it has logged the error, and the account (with the client's session token
  and user id) and the stored data (with the session token and its expiry) are as they
  were. Only the log and the trace of the host have grown.
\<close>

theorem renewal_failure_is_contained:
  assumes "entry_data h DATA_SLID_TOKEN = Some slid_token"
    and "remote_get_user_id ev (api a) slid_token = Inl err"
  shows "update_slnet_token ev a h =
           (None, a,
            h\<lparr>calls := calls h @ [Call_update_slnet_token, Call_get_user_id slid_token],
              logger := logger h @ [Log_error_updating_token err]\<rparr>)"
  using assms by (simp add: update_slnet_token_def)

theorem renewal_failure_is_contained_witness:
  "entry_data example_hass DATA_SLID_TOKEN = Some (PStr ''slid'') \<and>
   remote_get_user_id (example_env (Inl (Failure ''offline'')) None True) (api example_account)
     (PStr ''slid'') = Inl (Failure ''offline'') \<and>
   update_slnet_token (example_env (Inl (Failure ''offline'')) None True) example_account
     example_hass =
     (None, example_account,
      example_hass\<lparr>calls := [Call_update_slnet_token, Call_get_user_id (PStr ''slid'')],
                   logger := [Log_error_updating_token (Failure ''offline'')]\<rparr>)"
  using renewal_failure_is_contained [where h = example_hass and slid_token = "PStr ''slid''"
      and ev = "example_env (Inl (Failure ''offline'')) None True" and a = example_account
      and err = "Failure ''offline''"]
  by (simp add: example_hass_def example_env_def data_names_distinct)

text \<open>
  C9. When the exchange returns a triple and the write to the store does not raise,
  \<open>_update_slnet_token\<close> returns without an exception and the stored data hold the new
  session token, expiry and user id under their three names; every other stored field is
  as it was.
\<close>

theorem renewal_writes_merged_triple:
  assumes "entry_data h DATA_SLID_TOKEN = Some slid_token"
    and "remote_get_user_id ev (api a) slid_token = Inr (slnet_token, slnet_token_expires, uid)"
    and "store_data_error ev ((entry_data h)(DATA_SLNET_TOKEN \<mapsto> slnet_token,
           DATA_EXPIRES \<mapsto> slnet_token_expires, DATA_USER_ID \<mapsto> uid)) = None"
  shows "\<exists>a' h'. update_slnet_token ev a h = (None, a', h') \<and>
           entry_data h' DATA_SLNET_TOKEN = Some slnet_token \<and>
           entry_data h' DATA_EXPIRES = Some slnet_token_expires \<and>
           entry_data h' DATA_USER_ID = Some uid \<and>
           (\<forall>k. k \<noteq> DATA_SLNET_TOKEN \<and> k \<noteq> DATA_EXPIRES \<and> k \<noteq> DATA_USER_ID \<longrightarrow>
              entry_data h' k = entry_data h k)"
  using assms
  by (simp add: update_slnet_token_def async_update_entry_data_def data_names_distinct)

theorem renewal_writes_merged_triple_witness:
  "entry_data example_hass DATA_SLID_TOKEN = Some (PStr ''slid'') \<and>
   fst (update_slnet_token
          (example_env (Inr (PStr ''new'', PInt 5000, PStr ''u2'')) None True)
          example_account example_hass) = None \<and>
   entry_data (snd (snd (update_slnet_token
          (example_env (Inr (PStr ''new'', PInt 5000, PStr ''u2'')) None True)
          example_account example_hass))) DATA_SLNET_TOKEN = Some (PStr ''new'') \<and>
   entry_data (snd (snd (update_slnet_token
          (example_env (Inr (PStr ''new'', PInt 5000, PStr ''u2'')) None True)
          example_account example_hass))) DATA_EXPIRES = Some (PInt 5000) \<and>
   entry_data (snd (snd (update_slnet_token
          (example_env (Inr (PStr ''new'', PInt 5000, PStr ''u2'')) None True)
          example_account example_hass))) DATA_USER_ID = Some (PStr ''u2'') \<and>
   entry_data (snd (snd (update_slnet_token
          (example_env (Inr (PStr ''new'', PInt 5000, PStr ''u2'')) None True)
          example_account example_hass))) DATA_SLID_TOKEN = Some (PStr ''slid'') \<and>
   entry_data (snd (snd (update_slnet_token
          (example_env (Inr (PStr ''new'', PInt 5000, PStr ''u2'')) None True)
          example_account example_hass))) ''login'' = Some (PStr ''me'')"
  using renewal_writes_merged_triple [where h = example_hass and slid_token = "PStr ''slid''"
      and ev = "example_env (Inr (PStr ''new'', PInt 5000, PStr ''u2'')) None True"
      and a = example_account and slnet_token = "PStr ''new''"
      and slnet_token_expires = "PInt 5000" and uid = "PStr ''u2''"]
  by (auto simp add: example_hass_def example_env_def data_names_distinct)

text \<open>
  C10. The renewal is not atomic. When the exchange returns a triple and the write to
  the store raises, \<open>_update_slnet_token\<close> still returns without an exception: the error
  is logged, the client already holds the new session token and user id, and the stored
  data are the old ones.
\<close>

theorem renewal_not_atomic:
  assumes "entry_data h DATA_SLID_TOKEN = Some slid_token"
    and "remote_get_user_id ev (api a) slid_token = Inr (slnet_token, slnet_token_expires, uid)"
    and "store_data_error ev ((entry_data h)(DATA_SLNET_TOKEN \<mapsto> slnet_token,
           DATA_EXPIRES \<mapsto> slnet_token_expires, DATA_USER_ID \<mapsto> uid)) = Some err"
  shows "\<exists>a' h'. update_slnet_token ev a h = (None, a', h') \<and>
           api_slnet_token (api a') = slnet_token \<and> api_user_id (api a') = uid \<and>
           entry_data h' = entry_data h \<and>
           logger h' = logger h @ [Log_error_updating_token err]"
  using assms by (simp add: update_slnet_token_def async_update_entry_data_def)

theorem renewal_not_atomic_witness:
  "entry_data example_hass DATA_SLID_TOKEN = Some (PStr ''slid'') \<and>
   fst (update_slnet_token
          (example_env (Inr (PStr ''new'', PInt 5000, PStr ''u2'')) (Some (Failure ''disk'')) True)
          example_account example_hass) = None \<and>
   api_slnet_token (api (fst (snd (update_slnet_token
          (example_env (Inr (PStr ''new'', PInt 5000, PStr ''u2'')) (Some (Failure ''disk'')) True)
          example_account example_hass)))) = PStr ''new'' \<and>
   api_slnet_token (api example_account) = PStr ''old'' \<and>
   entry_data (snd (snd (update_slnet_token
          (example_env (Inr (PStr ''new'', PInt 5000, PStr ''u2'')) (Some (Failure ''disk'')) True)
          example_account example_hass))) DATA_SLNET_TOKEN = Some (PStr ''old'') \<and>
   logger (snd (snd (update_slnet_token
          (example_env (Inr (PStr ''new'', PInt 5000, PStr ''u2'')) (Some (Failure ''disk'')) True)
          example_account example_hass))) = [Log_error_updating_token (Failure ''disk'')]"
  using renewal_not_atomic [where h = example_hass and slid_token = "PStr ''slid''"
      and ev = "example_env (Inr (PStr ''new'', PInt 5000, PStr ''u2'')) (Some (Failure ''disk'')) True"
      and a = example_account and slnet_token = "PStr ''new''"
      and slnet_token_expires = "PInt 5000" and uid = "PStr ''u2''" and err = "Failure ''disk''"]
  by (auto simp add: example_hass_def example_env_def example_account_def StarlineApi_def
      data_names_distinct)

text \<open>
  The check compares with the interval the account holds: with that interval \<open>S\<close> and
  the stored expiry, one run of \<open>_update_data\<close> at the clock reading \<open>now\<close> enters
  \<open>_update_slnet_token\<close> once when \<open>now + S\<close> exceeds the expiry, and not at all
  otherwise; \<open>update\<close> is that run.
\<close>

lemma check_compares_held_interval:
  assumes "entry_data h DATA_EXPIRES = Some v" and "as_int v = Some expiry"
    and "update_intervals a CONF_SCAN_INTERVAL = Some S"
  shows "renewals (snd (snd (update_data ev now a h))) =
           renewals h + (if now + real_of_int S > real_of_int expiry then 1 else 0) \<and>
         update ev now a h = update_data ev now a h"
  using assms
  by (auto simp add: update_def update_data_def check_slnet_token_def update_slnet_token_def
      renewals_def async_update_entry_data_def Let_def
      split: option.splits sum.splits prod.splits)

section \<open>Polling subscriptions\<close>

text \<open>The method without the states in between.\<close>

lemma set_update_interval_eq:
  "set_update_interval key interval a h =
     (let h0 = h\<lparr>logger := logger h @ [Log_setting_interval interval]\<rparr> in
      case map_of (unsubscribe_auto_updater a) key of
        None \<Rightarrow> (Some (KeyError key), a, h0)
      | Some unsub \<Rightarrow>
          (let h1 = cancel_existing unsub h0 in
           case timedelta interval of
             Inl err \<Rightarrow> (Some err, a, h1)
           | Inr delta \<Rightarrow>
               (case async_track_time_interval (action_for key) delta h1 of
                  (hnd, h2) \<Rightarrow>
                    (None,
                     a\<lparr>unsubscribe_auto_updater :=
                         AList.update key (Some hnd) (unsubscribe_auto_updater a)\<rparr>,
                     h2))))"
  by (simp add: set_update_interval_def set_update_interval_steps_def Let_def
      split: option.splits sum.splits prod.splits)

lemma two_keys:
  assumes "map fst d = [k1, k2]"
  obtains x y where "d = [(k1, x), (k2, y)]"
proof -
  from assms obtain p q where d: "d = [p, q]" by (auto simp: map_eq_Cons_conv)
  with assms have "p = (k1, snd p)" "q = (k2, snd q)" by auto
  with d that show thesis by metis
qed

lemma at_most_one_filter:
  assumes "distinct (map fst xs)" and "list_all (\<lambda>t. P t \<longrightarrow> fst t = c) xs"
  shows "length (filter P xs) \<le> 1"
  using assms
proof (induction xs)
  case Nil then show ?case by simp
next
  case (Cons x xs)
  show ?case
  proof (cases "P x")
    case False with Cons show ?thesis by simp
  next
    case True
    with Cons.prems have c: "fst x = c" by simp
    have "filter P xs = []"
    proof (rule ccontr)
      assume "filter P xs \<noteq> []"
      then obtain y where y: "y \<in> set xs" "P y" by (auto simp: filter_empty_conv)
      with Cons.prems have "fst y = c" by (auto simp: list_all_iff)
      with c y Cons.prems show False by (auto simp: image_iff)
    qed
    with True show ?thesis by simp
  qed
qed

text \<open>The state the account keeps with the scheduler, and what follows from it.\<close>

lemma subscribed_at_most_one:
  assumes "subscribed a h"
  shows "length (subscriptions key h) \<le> 1"
proof -
  from assms have d: "distinct (map fst (timers h))"
    and l: "list_all (\<lambda>t. map_of (unsubscribe_auto_updater a) (handle_key (fst (snd t))) = Some (Some (fst t))) (timers h)"
    by (auto simp: subscribed_def list_all_iff)
  show ?thesis
  proof (cases "map_of (unsubscribe_auto_updater a) (handle_key (action_for key))")
    case None
    with l have "filter (\<lambda>t. fst (snd t) = action_for key) (timers h) = []"
      by (auto simp: filter_empty_conv list_all_iff)
    then show ?thesis by (simp add: subscriptions_def)
  next
    case (Some u)
    show ?thesis
    proof (cases u)
      case None
      with Some l have "filter (\<lambda>t. fst (snd t) = action_for key) (timers h) = []"
        by (auto simp: filter_empty_conv list_all_iff)
      then show ?thesis by (simp add: subscriptions_def)
    next
      case (Some c)
      with \<open>map_of _ _ = Some u\<close> l
      have "list_all (\<lambda>t. fst (snd t) = action_for key \<longrightarrow> fst t = c) (timers h)"
        by (auto simp: list_all_iff)
      with d show ?thesis unfolding subscriptions_def by (rule at_most_one_filter)
    qed
  qed
qed

lemma subscribed_logger: "subscribed a (h\<lparr>logger := l\<rparr>) = subscribed a h"
  by (simp add: subscribed_def)

lemma subscribed_cancel: "subscribed a h \<Longrightarrow> subscribed a (cancel c h)"
  by (auto simp: subscribed_def cancel_def list_all_iff distinct_map_filter)

lemma subscribed_cancel_existing: "subscribed a h \<Longrightarrow> subscribed a (cancel_existing u h)"
  by (cases u) (simp_all add: cancel_existing_def subscribed_cancel)

lemma cancel_existing_clears:
  assumes "subscribed a h" and "map_of (unsubscribe_auto_updater a) key = Some u"
   and "key = CONF_SCAN_INTERVAL \<or> key = CONF_SCAN_OBD_INTERVAL"
  shows "subscriptions key (cancel_existing u h) = []"
  using assms interval_names_distinct
  by (cases u) (auto simp: subscribed_def cancel_existing_def cancel_def subscriptions_def list_all_iff
      filter_empty_conv action_for_def handle_key_def split: action.splits)

lemma subscribed_set_update_interval:
  assumes "subscribed a h" and "set_update_interval key v a h = (r, a', h')"
  shows "subscribed a' h'"
proof -
  from assms(1) have keys: "map fst (unsubscribe_auto_updater a) = [CONF_SCAN_INTERVAL, CONF_SCAN_OBD_INTERVAL]"
    by (simp add: subscribed_def)
  then obtain x y where d: "unsubscribe_auto_updater a = [(CONF_SCAN_INTERVAL, x), (CONF_SCAN_OBD_INTERVAL, y)]"
    by (rule two_keys)
  let ?h0 = "h\<lparr>logger := logger h @ [Log_setting_interval v]\<rparr>"
  have s0: "subscribed a ?h0" using assms(1) by (simp add: subscribed_logger)
  show ?thesis
  proof (cases "map_of (unsubscribe_auto_updater a) key")
    case None
    with assms(2) s0 show ?thesis by (auto simp: set_update_interval_eq Let_def)
  next
    case (Some u)
    then have key: "key = CONF_SCAN_INTERVAL \<or> key = CONF_SCAN_OBD_INTERVAL"
      using d by (auto split: if_splits)
    let ?h1 = "cancel_existing u ?h0"
    have s1: "subscribed a ?h1" using s0 by (rule subscribed_cancel_existing)
    have clr: "subscriptions key ?h1 = []" using s0 Some key by (rule cancel_existing_clears)
    show ?thesis
    proof (cases "timedelta v")
      case (Inl e)
      with assms(2) Some s1 show ?thesis by (auto simp: set_update_interval_eq Let_def)
    next
      case (Inr delta)
      with assms(2) Some have a': "a' = a\<lparr>unsubscribe_auto_updater := AList.update key (Some (next_handle ?h1)) (unsubscribe_auto_updater a)\<rparr>"
        and h': "h' = ?h1\<lparr>timers := timers ?h1 @ [(next_handle ?h1, action_for key, delta)], next_handle := Suc (next_handle ?h1)\<rparr>"
        by (auto simp: set_update_interval_eq Let_def async_track_time_interval_def)
      from clr have no: "\<forall>t\<in>set (timers ?h1). fst (snd t) \<noteq> action_for key"
        by (auto simp: subscriptions_def filter_empty_conv)
      from s1 have d1: "distinct (map fst (timers ?h1))"
        and b1: "\<forall>t\<in>set (timers ?h1). fst t < next_handle ?h1"
        and m1: "\<forall>t\<in>set (timers ?h1). map_of (unsubscribe_auto_updater a) (handle_key (fst (snd t))) = Some (Some (fst t))"
        by (auto simp: subscribed_def list_all_iff)
      have hk: "handle_key (action_for key) = key" using key interval_names_distinct
        by (auto simp: handle_key_def action_for_def)
      have other: "\<And>t. t \<in> set (timers ?h1) \<Longrightarrow> handle_key (fst (snd t)) \<noteq> key"
        using no key interval_names_distinct
        by (auto simp: handle_key_def action_for_def split: action.splits)
      show ?thesis
        unfolding subscribed_def a' h'
        using keys d1 b1 m1 hk other key
        by (auto simp: list_all_iff update_conv' less_Suc_eq)
    qed
  qed
qed


lemma subscribed_set_update_intervals:
  assumes "subscribed (fst s) (snd s)"
  shows "subscribed (fst (set_update_intervals cs s)) (snd (set_update_intervals cs s))"
  using assms
proof (induction cs arbitrary: s)
  case Nil
  then show ?case by simp
next
  case (Cons c cs)
  obtain key v where c: "c = (key, v)" by (cases c)
  obtain r a' h' where step: "set_update_interval key v (fst s) (snd s) = (r, a', h')"
    by (cases "set_update_interval key v (fst s) (snd s)")
  with Cons.prems have "subscribed a' h'" by (rule subscribed_set_update_interval)
  with Cons.IH [of "(a', h')"] c step show ?case by simp
qed

lemma set_update_interval_installs:
  assumes "subscribed a h" and "set_update_interval key v a h = (None, a', h')"
  shows "\<exists>delta. timedelta v = Inr delta \<and>
           subscriptions key h' = [(next_handle h, action_for key, delta)] \<and>
           map_of (unsubscribe_auto_updater a') key = Some (Some (next_handle h)) \<and>
           next_handle h' = Suc (next_handle h)"
proof -
  let ?h0 = "h\<lparr>logger := logger h @ [Log_setting_interval v]\<rparr>"
  from assms(1) have s0: "subscribed a ?h0" by (simp add: subscribed_logger)
  from assms(1) have keys: "map fst (unsubscribe_auto_updater a) = [CONF_SCAN_INTERVAL, CONF_SCAN_OBD_INTERVAL]"
    by (simp add: subscribed_def)
  then obtain x y where d: "unsubscribe_auto_updater a = [(CONF_SCAN_INTERVAL, x), (CONF_SCAN_OBD_INTERVAL, y)]"
    by (rule two_keys)
  from assms(2) obtain u where u: "map_of (unsubscribe_auto_updater a) key = Some u"
    by (cases "map_of (unsubscribe_auto_updater a) key") (auto simp: set_update_interval_eq Let_def)
  then have key: "key = CONF_SCAN_INTERVAL \<or> key = CONF_SCAN_OBD_INTERVAL"
    using d by (auto split: if_splits)
  from assms(2) u obtain delta where delta: "timedelta v = Inr delta"
    by (cases "timedelta v") (auto simp: set_update_interval_eq Let_def)
  let ?h1 = "cancel_existing u ?h0"
  have nh: "next_handle ?h1 = next_handle h"
    by (cases u) (simp_all add: cancel_existing_def cancel_def)
  have clr: "subscriptions key ?h1 = []" using s0 u key by (rule cancel_existing_clears)
  from assms(2) u delta
  have a': "a' = a\<lparr>unsubscribe_auto_updater := AList.update key (Some (next_handle ?h1)) (unsubscribe_auto_updater a)\<rparr>"
    and h': "h' = ?h1\<lparr>timers := timers ?h1 @ [(next_handle ?h1, action_for key, delta)], next_handle := Suc (next_handle ?h1)\<rparr>"
    by (auto simp: set_update_interval_eq Let_def async_track_time_interval_def)
  have "subscriptions key h' = subscriptions key ?h1 @ [(next_handle ?h1, action_for key, delta)]"
    unfolding h' by (simp add: subscriptions_def)
  with clr nh have "subscriptions key h' = [(next_handle h, action_for key, delta)]" by simp
  moreover have "map_of (unsubscribe_auto_updater a') key = Some (Some (next_handle h))"
    unfolding a' using nh by (simp add: update_conv')
  moreover have "next_handle h' = Suc (next_handle h)" unfolding h' using nh by simp
  ultimately show ?thesis using delta by simp
qed

lemma fresh_account_subscribed:
  assumes "StarlineAccount h = Inr a" and "timers h = []"
  shows "subscribed a h"
  using assms
  by (auto simp: StarlineAccount_def subscribed_def split: option.splits)

lemma example_subscribed: "subscribed example_account example_hass"
  by (simp add: subscribed_def example_account_def example_hass_def)

lemma example_polling_eval:
  "example_polling =
     (example_account\<lparr>unsubscribe_auto_updater :=
        [(CONF_SCAN_INTERVAL, Some 2), (CONF_SCAN_OBD_INTERVAL, Some 1)]\<rparr>,
      example_hass\<lparr>timers := [(1, Update_obd, 100), (2, Update, 20)], next_handle := 3,
        logger := [Log_setting_interval (PInt 10), Log_setting_interval (PInt 100),
                   Log_setting_interval (PInt 20)]\<rparr>)"
  by (simp add: example_polling_def set_update_interval_eq example_account_def example_hass_def
      Let_def cancel_existing_def cancel_def timedelta_def async_track_time_interval_def
      action_for_def interval_names_distinct)

lemma example_polling_subscribed: "subscribed (fst example_polling) (snd example_polling)"
  unfolding example_polling_def
  by (rule subscribed_set_update_intervals) (simp add: example_subscribed)

lemma example_configured_eval:
  "set_update_interval CONF_SCAN_INTERVAL (PInt 600) example_account example_hass =
     (None,
      example_account\<lparr>unsubscribe_auto_updater :=
        [(CONF_SCAN_INTERVAL, Some 0), (CONF_SCAN_OBD_INTERVAL, None)]\<rparr>,
      example_hass\<lparr>timers := [(0, Update, 600)], next_handle := 1,
        logger := [Log_setting_interval (PInt 600)]\<rparr>)"
  by (simp add: set_update_interval_eq Let_def async_track_time_interval_def
      example_account_def example_hass_def cancel_existing_def timedelta_def action_for_def
      interval_names_distinct)

lemma set_update_interval_intervals:
  "update_intervals (fst (snd (set_update_interval key interval a h))) = update_intervals a"
  by (simp add: set_update_interval_eq Let_def async_track_time_interval_def
      split: option.splits sum.splits prod.splits)

text \<open>
  C2. \<open>set_update_interval\<close> cancels and subscribes, but it leaves \<open>_update_intervals\<close>
  as it was, whatever the name and the value. On the fresh example account a state
  interval of 600 s returns, the one active subscription invokes \<open>update\<close> every 600 s,
  and the account still holds 180 s for the state poll.
\<close>

theorem set_update_interval_forgets_interval:
  "update_intervals (fst (snd (set_update_interval key interval a h))) = update_intervals a \<and>
   fst (set_update_interval CONF_SCAN_INTERVAL (PInt 600) example_account example_hass) = None \<and>
   timers (snd example_configured) = [(0, Update, 600)] \<and>
   update_intervals (fst example_configured) CONF_SCAN_INTERVAL = Some 180"
  by (simp add: set_update_interval_intervals example_configured_def example_configured_eval)
    (simp add: example_account_def DEFAULT_SCAN_INTERVAL_def interval_names_distinct)

text \<open>
  C1. On the example account configured to poll the state every 600 s, with the session
  expiring at second 1005, a refresh at second 500 does not enter \<open>_update_slnet_token\<close>,
  although 500 + 600 exceeds 1005: at every clock reading the refresh renews exactly when
  the reading plus 180, the default the account still holds, exceeds the expiry.
\<close>

theorem refresh_ignores_configured_interval:
  "timers (snd example_configured) = [(0, Update, 600)] \<and>
   entry_data (snd example_configured) DATA_EXPIRES = Some (PInt 1005) \<and>
   (1005 :: real) < 500 + real_of_int 600 \<and>
   renewals (snd (snd (update_data ev 500 (fst example_configured) (snd example_configured)))) =
     renewals (snd example_configured) \<and>
   (\<forall>now. renewals (snd (snd (update_data ev now (fst example_configured)
       (snd example_configured)))) =
     renewals (snd example_configured) + (if 1005 < now + 180 then 1 else 0))"
proof -
  have e: "entry_data (snd example_configured) DATA_EXPIRES = Some (PInt 1005)"
    by (simp add: example_configured_def example_configured_eval)
      (simp add: example_hass_def data_names_distinct)
  have i: "update_intervals (fst example_configured) CONF_SCAN_INTERVAL = Some 180"
    by (simp add: example_configured_def example_configured_eval)
      (simp add: example_account_def DEFAULT_SCAN_INTERVAL_def interval_names_distinct)
  have t: "timers (snd example_configured) = [(0, Update, 600)]"
    by (simp add: example_configured_def example_configured_eval)
  have "as_int (PInt 1005) = Some 1005" by simp
  from check_compares_held_interval [OF e this i, of ev]
  have r: "renewals (snd (snd (update_data ev now (fst example_configured)
             (snd example_configured)))) =
           renewals (snd example_configured) + (if 1005 < now + 180 then 1 else 0)" for now
    by simp
  from r [of 500] have "renewals (snd (snd (update_data ev 500 (fst example_configured)
      (snd example_configured)))) = renewals (snd example_configured)" by simp
  with t e r show ?thesis by simp
qed

text \<open>The states a call passes through, from a state in which the subscriptions are in order.\<close>

lemma set_update_interval_last:
  "set_update_interval_steps key v a h = (r, a1, hs) \<Longrightarrow>
     set_update_interval key v a h = (r, a1, last hs)"
  by (simp add: set_update_interval_def)

lemma steps_at_most_one:
  assumes "subscribed a h" and "set_update_interval_steps key v a h = (r, a1, hs)"
  shows "hs \<noteq> [] \<and> list_all (\<lambda>x. length (subscriptions k x) \<le> 1) hs \<and> subscribed a1 (last hs)"
proof -
  let ?h0 = "h\<lparr>logger := logger h @ [Log_setting_interval v]\<rparr>"
  have s0: "subscribed a ?h0" using assms(1) by (simp add: subscribed_logger)
  then have o0: "length (subscriptions k ?h0) \<le> 1" by (rule subscribed_at_most_one)
  from assms have sl: "subscribed a1 (last hs)"
    by (blast intro: subscribed_set_update_interval set_update_interval_last)
  then have ol: "length (subscriptions k (last hs)) \<le> 1" by (rule subscribed_at_most_one)
  show ?thesis
  proof (cases "map_of (unsubscribe_auto_updater a) key")
    case None
    with assms(2) have "hs = [?h0]" by (simp add: set_update_interval_steps_def Let_def)
    with o0 sl show ?thesis by simp
  next
    case (Some u)
    let ?h1 = "cancel_existing u ?h0"
    have "subscribed a ?h1" using s0 by (rule subscribed_cancel_existing)
    then have o1: "length (subscriptions k ?h1) \<le> 1" by (rule subscribed_at_most_one)
    show ?thesis
    proof (cases "timedelta v")
      case (Inl err)
      with assms(2) Some have "hs = [?h0, ?h1]" by (simp add: set_update_interval_steps_def Let_def)
      with o0 o1 sl show ?thesis by simp
    next
      case (Inr delta)
      with assms(2) Some obtain h2 where hs: "hs = [?h0, ?h1, h2]"
        by (auto simp: set_update_interval_steps_def Let_def split: prod.splits)
      with ol have "length (subscriptions k h2) \<le> 1" by simp
      with hs o0 o1 sl show ?thesis by simp
    qed
  qed
qed

lemma steps_cancel_before_install:
  assumes "subscribed a h" and "set_update_interval_steps key v a h = (None, a1, hs)"
  shows "\<exists>h0 h1 h2 delta. hs = [h0, h1, h2] \<and> timers h0 = timers h \<and>
           subscriptions key h1 = [] \<and>
           subscriptions key h2 = [(next_handle h, action_for key, delta)]"
proof -
  let ?h0 = "h\<lparr>logger := logger h @ [Log_setting_interval v]\<rparr>"
  have s0: "subscribed a ?h0" using assms(1) by (simp add: subscribed_logger)
  from assms(1) have "map fst (unsubscribe_auto_updater a) =
      [CONF_SCAN_INTERVAL, CONF_SCAN_OBD_INTERVAL]"
    by (simp add: subscribed_def)
  then obtain x y where d: "unsubscribe_auto_updater a =
      [(CONF_SCAN_INTERVAL, x), (CONF_SCAN_OBD_INTERVAL, y)]"
    by (rule two_keys)
  from assms(2) obtain u where u: "map_of (unsubscribe_auto_updater a) key = Some u"
    by (cases "map_of (unsubscribe_auto_updater a) key")
      (auto simp: set_update_interval_steps_def Let_def)
  then have key: "key = CONF_SCAN_INTERVAL \<or> key = CONF_SCAN_OBD_INTERVAL"
    using d by (auto split: if_splits)
  let ?h1 = "cancel_existing u ?h0"
  have clr: "subscriptions key ?h1 = []" using s0 u key by (rule cancel_existing_clears)
  from assms(2) u obtain delta where delta: "timedelta v = Inr delta"
    by (cases "timedelta v") (auto simp: set_update_interval_steps_def Let_def)
  with assms(2) u obtain h2 where hs: "hs = [?h0, ?h1, h2]"
    by (auto simp: set_update_interval_steps_def Let_def split: prod.splits)
  from assms(2) have "set_update_interval key v a h = (None, a1, last hs)"
    by (rule set_update_interval_last)
  from set_update_interval_installs [OF assms(1) this] hs
  obtain delta' where "subscriptions key h2 = [(next_handle h, action_for key, delta')]"
    by auto
  with hs clr show ?thesis by simp
qed

lemma states_at_most_one:
  assumes "subscribed (fst s) (snd s)"
  shows "list_all (\<lambda>x. length (subscriptions k x) \<le> 1) (set_update_intervals_states cs s) \<and>
         snd (set_update_intervals cs s) = last (snd s # set_update_intervals_states cs s)"
  using assms
proof (induction cs arbitrary: s)
  case Nil
  then show ?case by simp
next
  case (Cons c cs)
  obtain key v where c: "c = (key, v)" by (cases c)
  obtain r a1 hs where st: "set_update_interval_steps key v (fst s) (snd s) = (r, a1, hs)"
    by (cases "set_update_interval_steps key v (fst s) (snd s)")
  from steps_at_most_one [OF Cons.prems st, of k]
  have ne: "hs \<noteq> []" and one: "list_all (\<lambda>x. length (subscriptions k x) \<le> 1) hs"
    and sub: "subscribed a1 (last hs)" by simp_all
  from Cons.IH [of "(a1, last hs)"] sub
  have ih: "list_all (\<lambda>x. length (subscriptions k x) \<le> 1)
              (set_update_intervals_states cs (a1, last hs))"
    and fin: "snd (set_update_intervals cs (a1, last hs)) =
              last (last hs # set_update_intervals_states cs (a1, last hs))" by simp_all
  from st have "set_update_interval key v (fst s) (snd s) = (r, a1, last hs)"
    by (rule set_update_interval_last)
  with c st ne one ih fin show ?case by (simp add: last_append)
qed

text \<open>
  C3. From a state in which the account's subscriptions are in order (a fresh account is
  one), every state of the host that a sequence of \<open>set_update_interval\<close> calls passes
  through, between the statements of a call as well as between calls, has at most one
  active subscription for an interval name. A further call for that name that returns has
  passed through three states: the first with the subscriptions as before, the second,
  where the stored handle has been invoked, with none for the name, and only the third
  with the new one. Two further calls for the name that both return leave exactly one, the
  one the second call installed.
\<close>

theorem one_subscription_per_name:
  assumes "subscribed a h" and "set_update_intervals cs (a, h) = (a', h')"
  shows "list_all (\<lambda>x. length (subscriptions key x) \<le> 1)
           (h # set_update_intervals_states cs (a, h)) \<and>
         h' = last (h # set_update_intervals_states cs (a, h)) \<and>
         (\<forall>v a1 hs. set_update_interval_steps key v a' h' = (None, a1, hs) \<longrightarrow>
            (\<exists>h0 h1 h2 delta. hs = [h0, h1, h2] \<and> timers h0 = timers h' \<and>
               subscriptions key h1 = [] \<and>
               subscriptions key h2 = [(next_handle h', action_for key, delta)])) \<and>
         (\<forall>v1 v2 a1 h1 a2 h2.
            set_update_interval key v1 a' h' = (None, a1, h1) \<and>
            set_update_interval key v2 a1 h1 = (None, a2, h2) \<longrightarrow>
            (\<exists>delta. timedelta v2 = Inr delta \<and>
               subscriptions key h2 = [(Suc (next_handle h'), action_for key, delta)]))"
proof -
  from assms have s': "subscribed a' h'"
    using subscribed_set_update_intervals [of "(a, h)" cs] by simp
  from assms(1) have "length (subscriptions key h) \<le> 1" by (rule subscribed_at_most_one)
  moreover from states_at_most_one [of "(a, h)" key cs] assms
  have "list_all (\<lambda>x. length (subscriptions key x) \<le> 1) (set_update_intervals_states cs (a, h))"
    and fin: "h' = last (h # set_update_intervals_states cs (a, h))" by simp_all
  ultimately have every: "list_all (\<lambda>x. length (subscriptions key x) \<le> 1)
      (h # set_update_intervals_states cs (a, h))" by simp
  have mid: "\<exists>h0 h1 h2 delta. hs = [h0, h1, h2] \<and> timers h0 = timers h' \<and>
               subscriptions key h1 = [] \<and>
               subscriptions key h2 = [(next_handle h', action_for key, delta)]"
    if "set_update_interval_steps key v a' h' = (None, a1, hs)" for v a1 hs
    using s' that by (rule steps_cancel_before_install)
  have twice: "\<exists>delta. timedelta v2 = Inr delta \<and>
               subscriptions key h2 = [(Suc (next_handle h'), action_for key, delta)]"
    if c1: "set_update_interval key v1 a' h' = (None, a1, h1)"
      and c2: "set_update_interval key v2 a1 h1 = (None, a2, h2)" for v1 v2 a1 h1 a2 h2
  proof -
    from s' c1 have s1: "subscribed a1 h1" by (rule subscribed_set_update_interval)
    from set_update_interval_installs [OF s' c1] have n1: "next_handle h1 = Suc (next_handle h')"
      by blast
    from set_update_interval_installs [OF s1 c2] n1 show ?thesis by auto
  qed
  from every fin mid twice show ?thesis by blast
qed

theorem one_subscription_per_name_witness:
  "subscribed example_account example_hass \<and>
   set_update_intervals
     [(CONF_SCAN_INTERVAL, PInt 10), (CONF_SCAN_OBD_INTERVAL, PInt 100),
      (CONF_SCAN_INTERVAL, PInt 20)]
     (example_account, example_hass) = example_polling \<and>
   map timers (example_hass # set_update_intervals_states
     [(CONF_SCAN_INTERVAL, PInt 10), (CONF_SCAN_OBD_INTERVAL, PInt 100),
      (CONF_SCAN_INTERVAL, PInt 20)]
     (example_account, example_hass)) =
     [[], [], [], [(0, Update, 10)],
      [(0, Update, 10)], [(0, Update, 10)], [(0, Update, 10), (1, Update_obd, 100)],
      [(0, Update, 10), (1, Update_obd, 100)], [(1, Update_obd, 100)],
      [(1, Update_obd, 100), (2, Update, 20)]] \<and>
   list_all (\<lambda>x. length (subscriptions CONF_SCAN_INTERVAL x) \<le> 1)
     (example_hass # set_update_intervals_states
       [(CONF_SCAN_INTERVAL, PInt 10), (CONF_SCAN_OBD_INTERVAL, PInt 100),
        (CONF_SCAN_INTERVAL, PInt 20)]
       (example_account, example_hass)) \<and>
   fst (set_update_interval_steps CONF_SCAN_INTERVAL (PInt 30) (fst example_polling)
          (snd example_polling)) = None \<and>
   map timers (snd (snd (set_update_interval_steps CONF_SCAN_INTERVAL (PInt 30)
          (fst example_polling) (snd example_polling)))) =
     [[(1, Update_obd, 100), (2, Update, 20)], [(1, Update_obd, 100)],
      [(1, Update_obd, 100), (3, Update, 30)]] \<and>
   subscriptions CONF_SCAN_INTERVAL
     (snd (snd (set_update_interval CONF_SCAN_INTERVAL (PInt 40)
        (fst (snd (set_update_interval CONF_SCAN_INTERVAL (PInt 30) (fst example_polling)
           (snd example_polling))))
        (snd (snd (set_update_interval CONF_SCAN_INTERVAL (PInt 30) (fst example_polling)
           (snd example_polling))))))) = [(4, Update, 40)]"
proof -
  have states: "map timers (example_hass # set_update_intervals_states
     [(CONF_SCAN_INTERVAL, PInt 10), (CONF_SCAN_OBD_INTERVAL, PInt 100),
      (CONF_SCAN_INTERVAL, PInt 20)]
     (example_account, example_hass)) =
     [[], [], [], [(0, Update, 10)],
      [(0, Update, 10)], [(0, Update, 10)], [(0, Update, 10), (1, Update_obd, 100)],
      [(0, Update, 10), (1, Update_obd, 100)], [(1, Update_obd, 100)],
      [(1, Update_obd, 100), (2, Update, 20)]]"
    by (simp add: set_update_interval_steps_def example_account_def example_hass_def
        Let_def cancel_existing_def cancel_def timedelta_def async_track_time_interval_def
        action_for_def interval_names_distinct)
  have further: "fst (set_update_interval_steps CONF_SCAN_INTERVAL (PInt 30)
          (fst example_polling) (snd example_polling)) = None \<and>
     map timers (snd (snd (set_update_interval_steps CONF_SCAN_INTERVAL (PInt 30)
          (fst example_polling) (snd example_polling)))) =
     [[(1, Update_obd, 100), (2, Update, 20)], [(1, Update_obd, 100)],
      [(1, Update_obd, 100), (3, Update, 30)]] \<and>
     subscriptions CONF_SCAN_INTERVAL
     (snd (snd (set_update_interval CONF_SCAN_INTERVAL (PInt 40)
        (fst (snd (set_update_interval CONF_SCAN_INTERVAL (PInt 30) (fst example_polling)
           (snd example_polling))))
        (snd (snd (set_update_interval CONF_SCAN_INTERVAL (PInt 30) (fst example_polling)
           (snd example_polling))))))) = [(4, Update, 40)]"
    by (simp add: example_polling_eval)
      (simp add: set_update_interval_eq set_update_interval_steps_def example_account_def
        example_hass_def Let_def cancel_existing_def cancel_def timedelta_def
        async_track_time_interval_def action_for_def interval_names_distinct
        subscriptions_def)
  from one_subscription_per_name [OF example_subscribed
      example_polling_eval [unfolded example_polling_def], of CONF_SCAN_INTERVAL]
  have "list_all (\<lambda>x. length (subscriptions CONF_SCAN_INTERVAL x) \<le> 1)
     (example_hass # set_update_intervals_states
       [(CONF_SCAN_INTERVAL, PInt 10), (CONF_SCAN_OBD_INTERVAL, PInt 100),
        (CONF_SCAN_INTERVAL, PInt 20)]
       (example_account, example_hass))"
    by blast
  with example_subscribed states further show ?thesis
    by (simp add: example_polling_def)
qed

lemma unload_two_keys:
  assumes "unsubscribe_auto_updater a = [(CONF_SCAN_INTERVAL, x), (CONF_SCAN_OBD_INTERVAL, y)]"
  shows "fst (unload a h) =
           a\<lparr>unsubscribe_auto_updater := [(CONF_SCAN_INTERVAL, None), (CONF_SCAN_OBD_INTERVAL, None)]\<rparr>"
    and "timers (snd (unload a h)) =
           filter (\<lambda>t. Some (fst t) \<noteq> x \<and> Some (fst t) \<noteq> y) (timers h)"
    and "snd (unload a h) =
           h\<lparr>timers := timers (snd (unload a h)), logger := logger (snd (unload a h))\<rparr>"
  using assms interval_names_distinct
  by (cases x; cases y; auto simp: unload_def cancel_def conj_commute)+

lemma unload_nothing_subscribed:
  assumes "unsubscribe_auto_updater a = [(CONF_SCAN_INTERVAL, None), (CONF_SCAN_OBD_INTERVAL, None)]"
  shows "unload a h = (a, h\<lparr>logger := logger h @ [Log_unloading]\<rparr>)"
  using assms interval_names_distinct by (simp add: unload_def)

lemma unload_again_nothing_subscribed:
  assumes "unsubscribe_auto_updater a = [(CONF_SCAN_INTERVAL, None), (CONF_SCAN_OBD_INTERVAL, None)]"
  shows "unload_again n (a, h) = (a, h\<lparr>logger := logger h @ replicate n Log_unloading\<rparr>)"
  using assms
proof (induction n arbitrary: h)
  case 0
  then show ?case by simp
next
  case (Suc n)
  then show ?case
    by (simp add: unload_nothing_subscribed replicate_app_Cons_same)
qed

lemma subscribed_timers_stored:
  assumes "subscribed a h"
    and "unsubscribe_auto_updater a = [(CONF_SCAN_INTERVAL, x), (CONF_SCAN_OBD_INTERVAL, y)]"
  shows "filter (\<lambda>t. Some (fst t) \<noteq> x \<and> Some (fst t) \<noteq> y) (timers h) = []"
proof -
  have "Some (fst t) = x \<or> Some (fst t) = y" if "t \<in> set (timers h)" for t
  proof -
    from assms(1) that
    have "map_of (unsubscribe_auto_updater a) (handle_key (fst (snd t))) = Some (Some (fst t))"
      by (simp add: subscribed_def list_all_iff)
    with assms(2) interval_names_distinct show ?thesis
      by (cases "fst (snd t)") (simp_all add: handle_key_def)
  qed
  then show ?thesis by (auto simp: filter_empty_conv)
qed

text \<open>
  C8. From a state in which the account's subscriptions are in order, \<open>unload\<close> changes
  of the account only the handles, which it clears, and of the host only the subscriptions,
  of which none is left, and the log. Any number of further calls change nothing but the
  log, which gets the opening debug line of each call. On an account with nothing
  subscribed the first call already does no more than that.
\<close>

theorem unload_idempotent:
  assumes "subscribed a h" and "unload a h = (a', h')"
  shows "a' = a\<lparr>unsubscribe_auto_updater :=
                  [(CONF_SCAN_INTERVAL, None), (CONF_SCAN_OBD_INTERVAL, None)]\<rparr> \<and>
         timers h' = [] \<and>
         h' = h\<lparr>timers := [], logger := logger h'\<rparr> \<and>
         unload_again n (a', h') = (a', h'\<lparr>logger := logger h' @ replicate n Log_unloading\<rparr>) \<and>
         (unsubscribe_auto_updater a = [(CONF_SCAN_INTERVAL, None), (CONF_SCAN_OBD_INTERVAL, None)] \<longrightarrow>
            a' = a \<and> h' = h\<lparr>logger := logger h @ [Log_unloading]\<rparr>)"
proof -
  from assms(1) have "map fst (unsubscribe_auto_updater a) = [CONF_SCAN_INTERVAL, CONF_SCAN_OBD_INTERVAL]"
    by (simp add: subscribed_def)
  then obtain x y where d: "unsubscribe_auto_updater a = [(CONF_SCAN_INTERVAL, x), (CONF_SCAN_OBD_INTERVAL, y)]"
    by (rule two_keys)
  from unload_two_keys(1) [OF d, of h] assms(2)
  have a': "a' = a\<lparr>unsubscribe_auto_updater :=
                  [(CONF_SCAN_INTERVAL, None), (CONF_SCAN_OBD_INTERVAL, None)]\<rparr>" by simp
  from unload_two_keys(2) [OF d, of h] assms(2) subscribed_timers_stored [OF assms(1) d]
  have t: "timers h' = []" by simp
  from unload_two_keys(3) [OF d, of h] assms(2) t
  have h': "h' = h\<lparr>timers := [], logger := logger h'\<rparr>" by simp
  from a' have "unsubscribe_auto_updater a' = [(CONF_SCAN_INTERVAL, None), (CONF_SCAN_OBD_INTERVAL, None)]"
    by simp
  then have again: "unload_again n (a', h') = (a', h'\<lparr>logger := logger h' @ replicate n Log_unloading\<rparr>)"
    by (rule unload_again_nothing_subscribed)
  have safe: "a' = a \<and> h' = h\<lparr>logger := logger h @ [Log_unloading]\<rparr>"
    if "unsubscribe_auto_updater a = [(CONF_SCAN_INTERVAL, None), (CONF_SCAN_OBD_INTERVAL, None)]"
    using unload_nothing_subscribed [OF that, of h] assms(2) by simp
  from a' t h' again safe show ?thesis by blast
qed

theorem unload_idempotent_witness:
  "subscribed (fst example_polling) (snd example_polling) \<and>
   timers (snd example_polling) = [(1, Update_obd, 100), (2, Update, 20)] \<and>
   unsubscribe_auto_updater (fst (unload (fst example_polling) (snd example_polling))) =
     [(CONF_SCAN_INTERVAL, None), (CONF_SCAN_OBD_INTERVAL, None)] \<and>
   timers (snd (unload (fst example_polling) (snd example_polling))) = [] \<and>
   unload_again 2 (unload (fst example_polling) (snd example_polling)) =
     (fst (unload (fst example_polling) (snd example_polling)),
      (snd (unload (fst example_polling) (snd example_polling)))
        \<lparr>logger := logger (snd (unload (fst example_polling) (snd example_polling))) @
           [Log_unloading, Log_unloading]\<rparr>) \<and>
   unload example_account example_hass =
     (example_account, example_hass\<lparr>logger := [Log_unloading]\<rparr>)"
proof -
  let ?u = "unload (fst example_polling) (snd example_polling)"
  have t: "timers (snd example_polling) = [(1, Update_obd, 100), (2, Update, 20)]"
    by (simp add: example_polling_eval)
  from unload_idempotent [OF example_polling_subscribed prod.collapse [symmetric], where n = 2]
  have u: "unsubscribe_auto_updater (fst ?u) =
             [(CONF_SCAN_INTERVAL, None), (CONF_SCAN_OBD_INTERVAL, None)]"
    and n: "timers (snd ?u) = []"
    and r: "unload_again 2 ?u = (fst ?u, (snd ?u)\<lparr>logger := logger (snd ?u) @
              [Log_unloading, Log_unloading]\<rparr>)"
    by (simp_all add: numeral_2_eq_2 del: unload_again.simps)
  have "unsubscribe_auto_updater example_account =
          [(CONF_SCAN_INTERVAL, None), (CONF_SCAN_OBD_INTERVAL, None)]"
    by (simp add: example_account_def)
  with unload_idempotent [OF example_subscribed prod.collapse [symmetric], where n = 0]
  have "fst (unload example_account example_hass) = example_account"
    and "snd (unload example_account example_hass) =
           example_hass\<lparr>logger := logger example_hass @ [Log_unloading]\<rparr>"
    by simp_all
  then have f: "unload example_account example_hass =
                  (example_account, example_hass\<lparr>logger := [Log_unloading]\<rparr>)"
    by (simp add: prod_eq_iff example_hass_def)
  from example_polling_subscribed t u n r f show ?thesis by simp
qed

section \<open>The entry lifecycle\<close>

text \<open>A refresh leaves the registries of the host alone.\<close>

lemma update_slnet_token_frame:
  "update_slnet_token ev a h = (r, a', h') \<Longrightarrow> registries h' = registries h"
  by (auto simp: update_slnet_token_def async_update_entry_data_def registries_def Let_def
      split: option.splits sum.splits prod.splits)

lemma check_slnet_token_frame:
  "check_slnet_token ev now a h = (r, a', h') \<Longrightarrow> registries h' = registries h"
  by (auto simp: check_slnet_token_def split: option.splits if_splits dest: update_slnet_token_frame)

lemma registries_calls: "registries (h\<lparr>calls := c\<rparr>) = registries h"
  by (simp add: registries_def)

lemma update_data_frame:
  assumes "update_data ev now a h = (r, a', h')"
  shows "registries h' = registries h"
proof -
  obtain r1 a1 h1 where c: "check_slnet_token ev now a h = (r1, a1, h1)"
    by (cases "check_slnet_token ev now a h")
  then have f: "registries h1 = registries h" by (rule check_slnet_token_frame)
  from assms c have "h' = h1 \<or> h' = h1\<lparr>calls := calls h1 @ [Call_api_update]\<rparr>"
    by (auto simp: update_data_def split: option.splits prod.splits)
  with f show ?thesis by (auto simp: registries_calls)
qed

lemma update_obd_data_frame:
  assumes "update_obd_data ev now a h = (r, a', h')"
  shows "registries h' = registries h"
proof -
  obtain r1 a1 h1 where c: "check_slnet_token ev now a h = (r1, a1, h1)"
    by (cases "check_slnet_token ev now a h")
  then have f: "registries h1 = registries h" by (rule check_slnet_token_frame)
  from assms c have "h' = h1 \<or> h' = h1\<lparr>calls := calls h1 @ [Call_api_update_obd]\<rparr>"
    by (auto simp: update_obd_data_def split: option.splits prod.splits)
  with f show ?thesis by (auto simp: registries_calls)
qed

lemma update_frame:
  "update ev now a h = (r, a', h') \<Longrightarrow> registries h' = registries h"
  by (simp add: update_def update_data_frame)

lemma update_obd_frame:
  "update_obd ev now a h = (r, a', h') \<Longrightarrow> registries h' = registries h"
  by (simp add: update_obd_def update_obd_data_frame)

lemma example_construct: "StarlineAccount example_hass = Inr example_account"
  by (simp add: StarlineAccount_def example_hass_def example_account_def data_names_distinct)

lemma example_update:
  "update (example_env x None up) 0 example_account example_hass =
     (None,
      example_account\<lparr>api := (api example_account)\<lparr>available := up,
                                devices := [(''7'', example_device)]\<rparr>\<rparr>,
      example_hass\<lparr>calls := [Call_api_update]\<rparr>)"
  by (simp add: update_def update_data_def check_slnet_token_def example_hass_def
      example_account_def example_env_def data_names_distinct interval_names_distinct
      DEFAULT_SCAN_INTERVAL_def)

lemma example_update_obd:
  "update_obd (example_env x None up) 0
     (example_account\<lparr>api := (api example_account)\<lparr>available := up,
                                devices := [(''7'', example_device)]\<rparr>\<rparr>)
     (example_hass\<lparr>calls := [Call_api_update]\<rparr>) =
     (None,
      example_account\<lparr>api := (api example_account)\<lparr>available := up,
                                devices := [(''7'', example_device)]\<rparr>\<rparr>,
      example_hass\<lparr>calls := [Call_api_update, Call_api_update_obd]\<rparr>)"
  by (simp add: update_obd_def update_obd_data_def check_slnet_token_def example_hass_def
      example_account_def example_env_def data_names_distinct interval_names_distinct
      DEFAULT_SCAN_INTERVAL_def)

lemma example_ready_facts:
  "services example_ready (DOMAIN, SERVICE_SET_SCAN_INTERVAL) =
     Some (Async_set_scan_interval, Some (Required_int_min CONF_SCAN_INTERVAL 10))"
  "services example_ready (DOMAIN, SERVICE_SET_SCAN_OBD_INTERVAL) =
     Some (Async_set_scan_interval, Some (Required_int_min CONF_SCAN_OBD_INTERVAL 100))"
  "entry_options example_ready = Map.empty"
  "timers example_ready = [(0, Update, 180), (1, Update_obd, 3600)]"
  "device_registry example_ready = [(''entry1'', device_info example_device)]"
  "pending_tasks example_ready = [Forward_entry_setup ''sensor'']"
  by (simp_all add: example_ready_def async_setup_entry_def example_construct
     example_update example_update_obd)
    (simp_all add: Let_def async_options_updated_def store_account_def
     set_update_interval_eq async_register_def add_update_listener_def async_create_task_def
     async_get_or_create_def cancel_existing_def timedelta_def async_track_time_interval_def
     action_for_def interval_names_distinct service_names_distinct
     example_account_def example_hass_def StarlineApi_def DEFAULT_SCAN_INTERVAL_def
     DEFAULT_SCAN_OBD_INTERVAL_def)


text \<open>
  C5. When the account is built, both initial refreshes return, and the client is then
  not available, \<open>async_setup_entry\<close> raises \<open>ConfigEntryNotReady\<close> and the host is as
  the second refresh left it: the registry, the device registry, the services, the
  subscriptions, the tasks and the update listeners are as before the setup.
\<close>

theorem setup_not_ready:
  assumes "StarlineAccount h = Inr a"
    and "update ev now1 a h = (None, a1, h1)"
    and "update_obd ev now2 a1 h1 = (None, a2, h2)"
    and "\<not> available (api a2)"
  shows "async_setup_entry ev now1 now2 platforms h = (Inl ConfigEntryNotReady, h2) \<and>
         domain_data h2 = domain_data h \<and> device_registry h2 = device_registry h \<and>
         services h2 = services h \<and> timers h2 = timers h \<and>
         pending_tasks h2 = pending_tasks h \<and> update_listeners h2 = update_listeners h"
proof -
  from assms have "async_setup_entry ev now1 now2 platforms h = (Inl ConfigEntryNotReady, h2)"
    by (simp add: async_setup_entry_def)
  moreover from update_frame [OF assms(2)] update_obd_frame [OF assms(3)]
  have "registries h2 = registries h" by simp
  ultimately show ?thesis by (simp add: registries_def)
qed

theorem setup_not_ready_witness:
  "StarlineAccount example_hass = Inr example_account \<and>
   async_setup_entry (example_env (Inl (Failure ''unused'')) None False) 0 0 [''sensor'']
     example_hass =
     (Inl ConfigEntryNotReady, example_hass\<lparr>calls := [Call_api_update, Call_api_update_obd]\<rparr>) \<and>
   domain_data (example_hass\<lparr>calls := [Call_api_update, Call_api_update_obd]\<rparr>) = None \<and>
   device_registry (example_hass\<lparr>calls := [Call_api_update, Call_api_update_obd]\<rparr>) = [] \<and>
   device_registry example_ready = [(''entry1'', device_info example_device)]"
  using setup_not_ready [OF example_construct
      example_update [of "Inl (Failure ''unused'')" False]
      example_update_obd [of "Inl (Failure ''unused'')" False], of "[''sensor'']"]
    example_construct example_ready_facts(5)
  by (simp add: example_hass_def)

text \<open>
  C6. On the host after a successful setup no call of either set-interval operation
  reaches the store. Data with the one key the schema names and a value at or above the
  minimum pass the validation, and the handler then raises \<open>KeyError\<close> for the other
  key; data with both keys are refused by either schema, whatever the values; so are
  values below the minimum. Whatever the data, the call raises and the host is as before.
\<close>

lemma validate_shape:
  "validate ev (Required_int_min key m) d = Inr cd \<Longrightarrow> \<exists>n. cd = [(key, PInt n)] \<and> m \<le> n"
  by (auto split: if_splits option.splits)

lemma set_scan_interval_call_fails:
  assumes "services h (DOMAIN, SERVICE_SET_SCAN_INTERVAL) =
             Some (Async_set_scan_interval, Some (Required_int_min CONF_SCAN_INTERVAL 10))"
  shows "\<exists>err. async_call ev now DOMAIN SERVICE_SET_SCAN_INTERVAL d h = (Some err, h)"
proof (cases "validate ev (Required_int_min CONF_SCAN_INTERVAL 10) d")
  case (Inl e)
  with assms show ?thesis by (simp add: async_call_def)
next
  case (Inr cd)
  then obtain n where "cd = [(CONF_SCAN_INTERVAL, PInt n)]" by (blast dest: validate_shape)
  with assms Inr show ?thesis
    by (simp add: async_call_def run_handler_def async_set_scan_interval_def interval_names_distinct)
qed

lemma set_scan_obd_interval_call_fails:
  assumes "services h (DOMAIN, SERVICE_SET_SCAN_OBD_INTERVAL) =
             Some (Async_set_scan_interval, Some (Required_int_min CONF_SCAN_OBD_INTERVAL 100))"
  shows "\<exists>err. async_call ev now DOMAIN SERVICE_SET_SCAN_OBD_INTERVAL d h = (Some err, h)"
proof (cases "validate ev (Required_int_min CONF_SCAN_OBD_INTERVAL 100) d")
  case (Inl e)
  with assms show ?thesis by (simp add: async_call_def)
next
  case (Inr cd)
  then obtain n where "cd = [(CONF_SCAN_OBD_INTERVAL, PInt n)]" by (blast dest: validate_shape)
  with assms Inr show ?thesis
    by (simp add: async_call_def run_handler_def async_set_scan_interval_def interval_names_distinct)
qed

theorem set_intervals_never_persists:
  "async_call ev now DOMAIN SERVICE_SET_SCAN_INTERVAL
     [(CONF_SCAN_INTERVAL, PInt 20)] example_ready =
     (Some (KeyError CONF_SCAN_OBD_INTERVAL), example_ready) \<and>
   async_call ev now DOMAIN SERVICE_SET_SCAN_OBD_INTERVAL
     [(CONF_SCAN_OBD_INTERVAL, PInt 200)] example_ready =
     (Some (KeyError CONF_SCAN_INTERVAL), example_ready) \<and>
   async_call ev now DOMAIN SERVICE_SET_SCAN_INTERVAL
     [(CONF_SCAN_INTERVAL, PInt 20), (CONF_SCAN_OBD_INTERVAL, PInt 200)] example_ready =
     (Some Invalid, example_ready) \<and>
   async_call ev now DOMAIN SERVICE_SET_SCAN_OBD_INTERVAL
     [(CONF_SCAN_INTERVAL, PInt 20), (CONF_SCAN_OBD_INTERVAL, PInt 200)] example_ready =
     (Some Invalid, example_ready) \<and>
   async_call ev now DOMAIN SERVICE_SET_SCAN_INTERVAL
     [(CONF_SCAN_INTERVAL, PInt 5), (CONF_SCAN_OBD_INTERVAL, PInt 50)] example_ready =
     (Some Invalid, example_ready) \<and>
   async_call ev now DOMAIN SERVICE_SET_SCAN_INTERVAL
     [(CONF_SCAN_INTERVAL, PInt 5)] example_ready = (Some Invalid, example_ready) \<and>
   async_call ev now DOMAIN SERVICE_SET_SCAN_OBD_INTERVAL
     [(CONF_SCAN_OBD_INTERVAL, PInt 50)] example_ready = (Some Invalid, example_ready) \<and>
   (\<exists>err. async_call ev now DOMAIN SERVICE_SET_SCAN_INTERVAL d example_ready =
      (Some err, example_ready)) \<and>
   (\<exists>err. async_call ev now DOMAIN SERVICE_SET_SCAN_OBD_INTERVAL d example_ready =
      (Some err, example_ready))"
  using set_scan_interval_call_fails [OF example_ready_facts(1), of ev now d]
    set_scan_obd_interval_call_fails [OF example_ready_facts(2), of ev now d]
  by (simp add: async_call_def example_ready_facts run_handler_def async_set_scan_interval_def
      coerce_int_def interval_names_distinct)

section \<open>Presentation helpers\<close>

text \<open>The timestamp conversion at known seconds: the epoch, a leap day, the ends of the range.\<close>

lemma isoformat_examples:
  "utcfromtimestamp_isoformat (PInt 0) = Inr ''1970-01-01T00:00:00''"
  "utcfromtimestamp_isoformat (PInt 1600000000) = Inr ''2020-09-13T12:26:40''"
  "utcfromtimestamp_isoformat (PInt 951782400) = Inr ''2000-02-29T00:00:00''"
  "utcfromtimestamp_isoformat (PInt (- 1)) = Inr ''1969-12-31T23:59:59''"
  "utcfromtimestamp_isoformat (PInt (- 62135596800)) = Inr ''0001-01-01T00:00:00''"
  "utcfromtimestamp_isoformat (PInt 253402300799) = Inr ''9999-12-31T23:59:59''"
  "utcfromtimestamp_isoformat (PInt 253402300800) = Inl RangeError"
  "utcfromtimestamp_isoformat PNone = Inl TypeError"
  by code_simp+







end
